theory Spec2Isabelle
  imports Complex_Main "HOL-Library.Char_ord" "HOL-Library.List_Lexorder" "HOL-Library.Multiset"
begin

section \<open>The transcode dialog of Clementine (src/transcoder/transcodedialog.cpp)\<close>

text \<open>
  The dialog is a Qt controller: every slot reads and writes widgets, three counters, two
  remembered directories, a timer, the persistent settings and the transcoding engine.
  The embedding is state passing over one record \<open>dialog\<close>. Each slot of the source is
  one function from the state before to the state after. What a slot obtains from outside
  (the result of a file dialog, the progress map the engine reports, the identifier of a
  timer event) is an argument of the function.

  C++ \<open>int\<close> has 32 bits. The three counters are compared with 0 and moved by one
  per notification; they are \<open>int\<close> here, and in a run they stay between 0 and the
  number of listed files. The products and sums of \<open>Start\<close> and \<open>UpdateProgress\<close>
  are taken in 32 bits: \<open>int32\<close> gives the two's complement result where the
  mathematical one does not fit. Signed overflow is undefined in C++; the wrap-around is
  what the usual targets compute.

  C++ \<open>float\<close> is a type parameter. The precision in which the product
  \<open>value * 100\<close> is formed is the platform's, and the conversion to \<open>int\<close> of a
  value that does not fit, of an infinity or of NaN is undefined. So the three operations
  the source applies to floats (the conversion of the literal 100, the product and the
  conversion to \<open>int\<close>) are taken from the platform, and every theorem holds for every
  platform.

  \<open>QString\<close> is \<open>string\<close>; a null and an empty \<open>QString\<close> are both \<open>[]\<close>.
  Member names lose their trailing underscore (\<open>queued_\<close> is \<open>queued\<close>).

  A widget is the fields the dialog sets on it: visible or enabled, the value and the
  maximum of the progress bar as they were last set, the status text, the lines of the log,
  the items and the current index of a box, the rows of the file list. The engine is the
  list of the calls made on it. The settings are a map from group and key to the stored
  string. The operations of \<open>QComboBox\<close>, \<open>QString\<close>, \<open>QFileInfo\<close> and
  \<open>QBasicTimer\<close> the dialog calls are modelled as Qt documents them.
\<close>

subsection \<open>Constants\<close>

definition kSettingsGroup :: string where
  "kSettingsGroup = ''Transcoder''"

definition kProgressInterval :: int where
  "kProgressInterval = 500"

definition kMaxDestinationItems :: int where
  "kMaxDestinationItems = 10"

text \<open>The value of a 32-bit \<open>int\<close> that a mathematical result leaves: wrap-around.\<close>

definition int32 :: "int \<Rightarrow> int" where
  "int32 x = (x + 2147483648) mod 4294967296 - 2147483648"

subsection \<open>Data\<close>

text \<open>
  \<open>TranscoderPreset\<close> is declared in transcoder.h; the dialog reads the three members
  below.
\<close>

record TranscoderPreset =
  name :: string
  extension :: string
  codec_mimetype :: string

definition ComparePresetsByName :: "TranscoderPreset \<Rightarrow> TranscoderPreset \<Rightarrow> bool" where
  "ComparePresetsByName left right = (name left < name right)"

text \<open>
  A \<open>QVariant\<close> as the dialog uses it: invalid (what \<open>itemData\<close> returns for an item
  without data or an index out of range), a string, or a preset.
\<close>

datatype QVariant = Invalid | VString string | VPreset TranscoderPreset

definition isNull :: "QVariant \<Rightarrow> bool" where
  "isNull v = (case v of Invalid \<Rightarrow> True | VString s \<Rightarrow> False | VPreset p \<Rightarrow> False)"

definition toString :: "QVariant \<Rightarrow> string" where
  "toString v = (case v of VString s \<Rightarrow> s | Invalid \<Rightarrow> [] | VPreset p \<Rightarrow> [])"

definition value_TranscoderPreset :: "QVariant \<Rightarrow> TranscoderPreset" where
  "value_TranscoderPreset v =
     (case v of
        VPreset p \<Rightarrow> p
      | Invalid \<Rightarrow> \<lparr>name = [], extension = [], codec_mimetype = []\<rparr>
      | VString s \<Rightarrow> \<lparr>name = [], extension = [], codec_mimetype = []\<rparr>)"

text \<open>
  A \<open>QComboBox\<close>: the items in order, each a display text with its user data, and the
  current index (\<open>-1\<close> when there is none). The icon of an item is not modelled.
\<close>

record QComboBox =
  items :: "(string \<times> QVariant) list"
  currentIndex :: int

definition count_items :: "QComboBox \<Rightarrow> int" where
  "count_items c = int (length (items c))"

definition itemData :: "QComboBox \<Rightarrow> int \<Rightarrow> QVariant" where
  "itemData c i = (if 0 \<le> i \<and> i < count_items c then snd (items c ! nat i) else Invalid)"

definition setCurrentIndex :: "int \<Rightarrow> QComboBox \<Rightarrow> QComboBox" where
  "setCurrentIndex i c = c\<lparr>currentIndex := (if 0 \<le> i \<and> i < count_items c then i else -1)\<rparr>"

text \<open>\<open>addItem\<close> appends; an empty box makes its first item the current one.\<close>

definition addItem :: "string \<Rightarrow> QVariant \<Rightarrow> QComboBox \<Rightarrow> QComboBox" where
  "addItem txt userData c =
     c\<lparr>items := items c @ [(txt, userData)],
       currentIndex := (if items c = [] then 0 else currentIndex c)\<rparr>"

text \<open>
  \<open>removeItem\<close> does nothing for an index out of range. Otherwise the item goes, a
  current index behind it moves down by one, and a current index on it moves to the
  item that takes its place (the last one when there is none, \<open>-1\<close> in an empty box).
\<close>

definition removeItem :: "int \<Rightarrow> QComboBox \<Rightarrow> QComboBox" where
  "removeItem i c =
     (if 0 \<le> i \<and> i < count_items c then
        let its = take (nat i) (items c) @ drop (Suc (nat i)) (items c);
            cur = currentIndex c
        in c\<lparr>items := its,
             currentIndex :=
               (if i < cur then cur - 1
                else if cur = i then (if its = [] then -1 else min (int (length its) - 1) i)
                else cur)\<rparr>
      else c)"

text \<open>\<open>findData\<close>: the index of the first item whose data equals the value, else \<open>-1\<close>.\<close>

fun findData_from :: "QVariant \<Rightarrow> (string \<times> QVariant) list \<Rightarrow> int \<Rightarrow> int" where
  "findData_from v [] i = -1"
| "findData_from v (x # xs) i = (if snd x = v then i else findData_from v xs (i + 1))"

definition findData :: "QVariant \<Rightarrow> QComboBox \<Rightarrow> int" where
  "findData v c = findData_from v (items c) 0"

text \<open>A row of the file list: the two columns shown and the file name kept as user data.\<close>

record file_item =
  column_name :: string
  column_path :: string
  user_data :: string

text \<open>
  \<open>QBasicTimer\<close>: the identifier of the running timer, 0 when it is not active, and
  the interval handed to \<open>QObject::startTimer\<close>.
\<close>

record QBasicTimer =
  timerId :: int
  interval :: int

datatype QUrl = fromLocalFile string

text \<open>The calls the dialog makes on the engine, in the order it makes them.\<close>

datatype transcoder_call =
    Transcoder_AddJob QUrl TranscoderPreset string
  | Transcoder_Start
  | Transcoder_Cancel
  | Transcoder_DumpGraph int

text \<open>
  What the platform supplies: the home directory, which paths are directories, the
  translation of a text with a count (\<open>tr\<close> with \<open>%n\<close>), the identifier
  \<open>QObject::startTimer\<close> hands out, and the operations on the type \<open>'f\<close> of
  floats: the conversion from \<open>int\<close>, the product, and the conversion \<open>int(x)\<close>.
\<close>

record 'f env =
  homePath :: string
  isDir :: "string \<Rightarrow> bool"
  tr_n :: "string \<Rightarrow> int \<Rightarrow> string"
  startTimer :: "int \<Rightarrow> int"
  float_of_int :: "int \<Rightarrow> 'f"
  float_mul :: "'f \<Rightarrow> 'f \<Rightarrow> 'f"
  int_of_float :: "'f \<Rightarrow> int"

record dialog =
  files :: "file_item list"
  format :: QComboBox
  destination :: QComboBox
  queued :: int
  finished_success :: int
  finished_failed :: int
  last_add_dir :: string
  last_import_dir :: string
  progress_timer :: QBasicTimer
  start_button_visible :: bool
  cancel_button_visible :: bool
  close_button_visible :: bool
  input_group_enabled :: bool
  output_group_enabled :: bool
  progress_group_visible :: bool
  progress_bar_value :: int
  progress_bar_maximum :: int
  progress_text :: string
  log_text :: "string list"
  transcoder :: "transcoder_call list"
  settings :: "string \<times> string \<Rightarrow> string option"

subsection \<open>Qt helpers on strings and paths\<close>

text \<open>\<open>QStringList::join\<close>.\<close>

fun join :: "string \<Rightarrow> string list \<Rightarrow> string" where
  "join sep [] = []"
| "join sep [x] = x"
| "join sep (x # y # ys) = x @ sep @ join sep (y # ys)"

text \<open>\<open>QString::split\<close> at one character, empty parts kept.\<close>

fun split_at :: "char \<Rightarrow> string \<Rightarrow> string \<Rightarrow> string list" where
  "split_at sep [] cur = [rev cur]"
| "split_at sep (c # cs) cur =
     (if c = sep then rev cur # split_at sep cs [] else split_at sep cs (c # cur))"

text \<open>
  \<open>QString::section\<close> with the default flags: negative positions count from the end;
  the fields from \<open>start\<close> to \<open>end\<close> are joined by the separator.
\<close>

definition section_of :: "char \<Rightarrow> int \<Rightarrow> int \<Rightarrow> string \<Rightarrow> string" where
  "section_of sep start end s =
     (let sections = split_at sep s [];
          sectionsSize = int (length sections);
          start' = (if start < 0 then start + sectionsSize else start);
          end' = (if end < 0 then end + sectionsSize else end)
      in if sectionsSize \<le> start' \<or> end' < 0 \<or> end' < start' then []
         else join [sep] (take (nat (end' - max start' 0 + 1)) (drop (nat start') sections)))"

text \<open>
  \<open>QFileInfo\<close> on a path with \<open>/\<close> as separator: \<open>filePath\<close> is the path as given,
  \<open>path\<close> is what stands before the last separator (\<open>.\<close> without a separator, \<open>/\<close>
  when the only separator is the first character), \<open>fileName\<close> what stands after it,
  and \<open>completeBaseName\<close> the file name up to its last dot.
\<close>

definition filePath :: "string \<Rightarrow> string" where
  "filePath p = p"

definition fileName :: "string \<Rightarrow> string" where
  "fileName p = rev (takeWhile (\<lambda>c. c \<noteq> CHR ''/'') (rev p))"

definition QFileInfo_path :: "string \<Rightarrow> string" where
  "QFileInfo_path p =
     (if CHR ''/'' \<notin> set p then ''.''
      else let dir = rev (tl (dropWhile (\<lambda>c. c \<noteq> CHR ''/'') (rev p)))
           in if dir = [] then ''/'' else dir)"

definition completeBaseName :: "string \<Rightarrow> string" where
  "completeBaseName p =
     (let n = fileName p
      in if CHR ''.'' \<in> set n then rev (tl (dropWhile (\<lambda>c. c \<noteq> CHR ''.'') (rev n))) else n)"

text \<open>\<open>qBound(min, val, max)\<close>.\<close>

definition qBound :: "int \<Rightarrow> int \<Rightarrow> int \<Rightarrow> int" where
  "qBound lo val hi = max lo (min hi val)"

subsection \<open>The slots\<close>

definition QBasicTimer_start :: "'f env \<Rightarrow> int \<Rightarrow> QBasicTimer" where
  "QBasicTimer_start e msec = \<lparr>timerId = startTimer e msec, interval = msec\<rparr>"

definition QBasicTimer_stop :: "QBasicTimer \<Rightarrow> QBasicTimer" where
  "QBasicTimer_stop t = t\<lparr>timerId := 0\<rparr>"

definition SetWorking :: "'f env \<Rightarrow> bool \<Rightarrow> dialog \<Rightarrow> dialog" where
  "SetWorking e working d =
     (let d1 = d\<lparr>start_button_visible := \<not> working,
                 cancel_button_visible := working,
                 close_button_visible := \<not> working,
                 input_group_enabled := \<not> working,
                 output_group_enabled := \<not> working,
                 progress_group_visible := True\<rparr>
      in if working then d1\<lparr>progress_timer := QBasicTimer_start e kProgressInterval\<rparr>
         else d1\<lparr>progress_timer := QBasicTimer_stop (progress_timer d1)\<rparr>)"

definition GetOutputFileName :: "'f env \<Rightarrow> dialog \<Rightarrow> string \<Rightarrow> TranscoderPreset \<Rightarrow> string" where
  "GetOutputFileName e d input preset =
     (let path = toString (itemData (destination d) (currentIndex (destination d)));
          output_path = (if isDir e path then filePath path else QFileInfo_path input)
      in output_path @ ''/'' @ completeBaseName input @ ''.'' @ extension preset)"

definition UpdateStatusText :: "'f env \<Rightarrow> dialog \<Rightarrow> dialog" where
  "UpdateStatusText e d =
     (let s0 = [];
          s1 = (if queued d \<noteq> 0
                then s0 @ [''<font color=\"#3467c8\">'' @ tr_n e ''%n remaining'' (queued d) @ ''</font>'']
                else s0);
          s2 = (if finished_success d \<noteq> 0
                then s1 @ [''<font color=\"#02b600\">'' @ tr_n e ''%n finished'' (finished_success d) @ ''</font>'']
                else s1);
          s3 = (if finished_failed d \<noteq> 0
                then s2 @ [''<font color=\"#b60000\">'' @ tr_n e ''%n failed'' (finished_failed d) @ ''</font>'']
                else s2)
      in d\<lparr>progress_text := join '', '' s3\<rparr>)"

text \<open>
  \<open>UpdateProgress\<close> takes the map \<open>Transcoder::GetProgress\<close> returns at that moment,
  as the list of its entries in key order.
\<close>

fun UpdateProgress_loop :: "'f env \<Rightarrow> 'f list \<Rightarrow> int \<Rightarrow> int" where
  "UpdateProgress_loop e [] progress = progress"
| "UpdateProgress_loop e (v # vs) progress =
     UpdateProgress_loop e vs
       (int32 (progress + qBound 0 (int_of_float e (float_mul e v (float_of_int e 100))) 99))"

definition UpdateProgress :: "'f env \<Rightarrow> (QUrl \<times> 'f) list \<Rightarrow> dialog \<Rightarrow> dialog" where
  "UpdateProgress e current_jobs d =
     (let progress = int32 (int32 (finished_success d + finished_failed d) * 100)
      in d\<lparr>progress_bar_value := UpdateProgress_loop e (map snd current_jobs) progress\<rparr>)"

fun Start_loop :: "'f env \<Rightarrow> TranscoderPreset \<Rightarrow> file_item list \<Rightarrow> dialog \<Rightarrow> dialog" where
  "Start_loop e preset [] d = d"
| "Start_loop e preset (f # fs) d =
     (let input_fileinfo = user_data f;
          output_filename = GetOutputFileName e d input_fileinfo preset
      in Start_loop e preset fs
           (d\<lparr>transcoder := transcoder d @
                [Transcoder_AddJob (fromLocalFile (filePath input_fileinfo)) preset output_filename]\<rparr>))"

definition Start :: "'f env \<Rightarrow> dialog \<Rightarrow> dialog" where
  "Start e d =
     (let count = int (length (files d))
      in if count = 0 then d
         else
           let d1 = SetWorking e True d;
               preset = value_TranscoderPreset (itemData (format d1) (currentIndex (format d1)));
               d2 = Start_loop e preset (files d1) d1;
               d3 = d2\<lparr>progress_bar_value := 0\<rparr>;
               d4 = d3\<lparr>progress_bar_maximum := int32 (count * 100)\<rparr>;
               d5 = d4\<lparr>queued := count, finished_success := 0, finished_failed := 0\<rparr>;
               d6 = UpdateStatusText e d5;
               d7 = d6\<lparr>transcoder := transcoder d6 @ [Transcoder_Start]\<rparr>
           in d7\<lparr>settings := (settings d7)((kSettingsGroup, ''last_output_format'') \<mapsto>
                                   codec_mimetype preset)\<rparr>)"



definition JobComplete ::
  "'f env \<Rightarrow> (QUrl \<times> 'f) list \<Rightarrow> QUrl \<Rightarrow> string \<Rightarrow> bool \<Rightarrow> dialog \<Rightarrow> dialog" where
  "JobComplete e current_jobs input output success d =
     (let d1 = (if success then d\<lparr>finished_success := finished_success d + 1\<rparr>
                else d\<lparr>finished_failed := finished_failed d + 1\<rparr>);
          d2 = d1\<lparr>queued := queued d1 - 1\<rparr>;
          d3 = UpdateStatusText e d2
      in UpdateProgress e current_jobs d3)"


fun SetFilenames :: "string list \<Rightarrow> dialog \<Rightarrow> dialog" where
  "SetFilenames [] d = d"
| "SetFilenames (filename # filenames) d =
     (let name = section_of CHR ''/'' (-1) (-1) filename;
          path = section_of CHR ''/'' 0 (-2) filename
      in SetFilenames filenames
           (d\<lparr>files := files d @
                [\<lparr>column_name = name, column_path = path, user_data = filename\<rparr>]\<rparr>))"

text \<open>\<open>Add\<close> takes the file names the file dialog returned (none when it was cancelled).\<close>

definition Add :: "string list \<Rightarrow> dialog \<Rightarrow> dialog" where
  "Add filenames d =
     (if filenames = [] then d
      else
        let d1 = SetFilenames filenames d;
            d2 = d1\<lparr>last_add_dir := filenames ! 0\<rparr>
        in d2\<lparr>settings := (settings d2)((kSettingsGroup, ''last_add_dir'') \<mapsto> last_add_dir d2)\<rparr>)"

text \<open>
  \<open>Import\<close> takes the directory the dialog returned (empty when cancelled) and the
  files the directory iterator then yields, in its order.
\<close>

fun Import_loop :: "string list \<Rightarrow> string list \<Rightarrow> string list" where
  "Import_loop [] filenames = filenames"
| "Import_loop (f # fs) filenames = Import_loop fs (filenames @ [f])"

definition Import :: "string \<Rightarrow> string list \<Rightarrow> dialog \<Rightarrow> dialog" where
  "Import path found d =
     (if path = [] then d
      else
        let filenames = Import_loop found [];
            d1 = SetFilenames filenames d;
            d2 = d1\<lparr>last_import_dir := path\<rparr>
        in d2\<lparr>settings := (settings d2)((kSettingsGroup, ''last_import_dir'') \<mapsto>
                                last_import_dir d2)\<rparr>)"





text \<open>
  \<open>AddDestination\<close> takes the folder the dialog returned (empty when cancelled). The
  folder the dialog opens in is computed first and has no other use.
\<close>

definition AddDestination_initial_dir :: "'f env \<Rightarrow> dialog \<Rightarrow> string" where
  "AddDestination_initial_dir e d =
     (let index = currentIndex (destination d)
      in if \<not> isNull (itemData (destination d) index)
         then toString (itemData (destination d) index)
         else homePath e)"

function AddDestination_loop :: "QComboBox \<Rightarrow> QComboBox" where
  "AddDestination_loop c =
     (if kMaxDestinationItems \<le> count_items c then AddDestination_loop (removeItem 1 c) else c)"
  by pat_completeness auto
termination
  by (relation "measure (\<lambda>c. length (items c))")
     (auto simp: kMaxDestinationItems_def count_items_def removeItem_def Let_def)

definition AddDestination :: "string \<Rightarrow> dialog \<Rightarrow> dialog" where
  "AddDestination dir d =
     (if dir \<noteq> [] then
        let box = AddDestination_loop (destination d);
            userData = VString dir;
            duplicate_index = findData userData box
        in if duplicate_index = -1
           then let box' = addItem dir userData box
                in d\<lparr>destination := setCurrentIndex (count_items box' - 1) box'\<rparr>
           else d\<lparr>destination := setCurrentIndex duplicate_index box\<rparr>
      else d)"

subsection \<open>The constructor\<close>

text \<open>
  The constructor takes what it reads from outside: the list \<open>Transcoder::GetAllPresets\<close>
  returns, the function \<open>std::sort\<close> (which is not stable, so the theorems assume only
  its contract), and the state \<open>setupUi\<close> leaves, with the stored settings in it.
\<close>

definition QSettings_value :: "(string \<times> string \<Rightarrow> string option) \<Rightarrow> string \<Rightarrow> string \<Rightarrow> string" where
  "QSettings_value s key defaultValue =
     (case s (kSettingsGroup, key) of None \<Rightarrow> defaultValue | Some v \<Rightarrow> v)"

fun TranscodeDialog_presets_loop :: "TranscoderPreset list \<Rightarrow> QComboBox \<Rightarrow> QComboBox" where
  "TranscodeDialog_presets_loop [] c = c"
| "TranscodeDialog_presets_loop (preset # presets) c =
     TranscodeDialog_presets_loop presets
       (addItem (name preset @ '' (.'' @ extension preset @ '')'') (VPreset preset) c)"

function TranscodeDialog_format_loop :: "string \<Rightarrow> int \<Rightarrow> QComboBox \<Rightarrow> QComboBox" where
  "TranscodeDialog_format_loop last_output_format i c =
     (if i < count_items c then
        (if last_output_format = codec_mimetype (value_TranscoderPreset (itemData c i))
         then setCurrentIndex i c
         else TranscodeDialog_format_loop last_output_format (i + 1) c)
      else c)"
  by pat_completeness auto
termination
  by (relation "measure (\<lambda>(f, i, c). nat (count_items c - i))") auto

definition TranscodeDialog ::
  "'f env \<Rightarrow> ((TranscoderPreset \<Rightarrow> TranscoderPreset \<Rightarrow> bool) \<Rightarrow> TranscoderPreset list \<Rightarrow> TranscoderPreset list) \<Rightarrow>
   TranscoderPreset list \<Rightarrow> dialog \<Rightarrow> dialog" where
  "TranscodeDialog e std_sort GetAllPresets ui =
     (let d0 = ui\<lparr>queued := 0, finished_success := 0, finished_failed := 0\<rparr>;
          presets = std_sort ComparePresetsByName GetAllPresets;
          d1 = d0\<lparr>format := TranscodeDialog_presets_loop presets (format d0)\<rparr>;
          d2 = d1\<lparr>last_add_dir := QSettings_value (settings d1) ''last_add_dir'' (homePath e)\<rparr>;
          d3 = d2\<lparr>last_import_dir := QSettings_value (settings d2) ''last_import_dir'' (homePath e)\<rparr>;
          last_output_format = QSettings_value (settings d3) ''last_output_format'' ''audio/x-vorbis'';
          d4 = d3\<lparr>format := TranscodeDialog_format_loop last_output_format 0 (format d3)\<rparr>
      in d4\<lparr>start_button_visible := True, cancel_button_visible := False,
             progress_group_visible := False\<rparr>)"

subsection \<open>The connections\<close>



subsection \<open>Sequences of actions\<close>

fun AddDestinations :: "string list \<Rightarrow> dialog \<Rightarrow> dialog" where
  "AddDestinations [] d = d"
| "AddDestinations (dir # dirs) d = AddDestinations dirs (AddDestination dir d)"

text \<open>
  A \<open>JobComplete\<close> notification: the progress map the engine reports when the slot runs,
  and the three arguments of the signal.
\<close>

type_synonym 'f notification = "(QUrl \<times> 'f) list \<times> QUrl \<times> string \<times> bool"

fun JobCompletes :: "'f env \<Rightarrow> 'f notification list \<Rightarrow> dialog \<Rightarrow> dialog" where
  "JobCompletes e [] d = d"
| "JobCompletes e (n # ns) d =
     (case n of (current_jobs, input, output, success) \<Rightarrow>
        JobCompletes e ns (JobComplete e current_jobs input output success d))"

subsection \<open>Notions used in the statements\<close>

text \<open>
  The folder paths of a box are the strings its items carry as data, in order. The first
  item of the destination box (the originals' own folder) carries no data.
\<close>

fun paths_of :: "(string \<times> QVariant) list \<Rightarrow> string list" where
  "paths_of [] = []"
| "paths_of (it # its) =
     (case snd it of VString s \<Rightarrow> s # paths_of its | Invalid \<Rightarrow> paths_of its | VPreset p \<Rightarrow> paths_of its)"

definition folder_paths :: "QComboBox \<Rightarrow> string list" where
  "folder_paths c = paths_of (items c)"

text \<open>The preset of the current item of the format box, as \<open>Start\<close> reads it.\<close>

definition current_preset :: "dialog \<Rightarrow> TranscoderPreset" where
  "current_preset d = value_TranscoderPreset (itemData (format d) (currentIndex (format d)))"

text \<open>What one job in flight adds to the progress value.\<close>

definition scaled :: "'f env \<Rightarrow> 'f \<Rightarrow> int" where
  "scaled e v = qBound 0 (int_of_float e (float_mul e v (float_of_int e 100))) 99"

text \<open>
  The tally: one coloured section for each counter that is not 0, in the order remaining,
  finished, failed, with a comma and a space between two sections.
\<close>

definition status_text :: "'f env \<Rightarrow> int \<Rightarrow> int \<Rightarrow> int \<Rightarrow> string" where
  "status_text e q s f =
     (let remaining = ''<font color=\"#3467c8\">'' @ tr_n e ''%n remaining'' q @ ''</font>'';
          finished = ''<font color=\"#02b600\">'' @ tr_n e ''%n finished'' s @ ''</font>'';
          failed = ''<font color=\"#b60000\">'' @ tr_n e ''%n failed'' f @ ''</font>''
      in if q \<noteq> 0 then
           (if s \<noteq> 0 then
              (if f \<noteq> 0 then remaining @ '', '' @ finished @ '', '' @ failed
               else remaining @ '', '' @ finished)
            else if f \<noteq> 0 then remaining @ '', '' @ failed else remaining)
         else if s \<noteq> 0 then (if f \<noteq> 0 then finished @ '', '' @ failed else finished)
         else if f \<noteq> 0 then failed else [])"

text \<open>The item the constructor adds for a preset.\<close>

definition item_of_preset :: "TranscoderPreset \<Rightarrow> string \<times> QVariant" where
  "item_of_preset p = (name p @ '' (.'' @ extension p @ '')'', VPreset p)"

subsection \<open>Example states\<close>

text \<open>
  An example platform. Its translation puts the count, in decimal, for a leading
  \<open>%n\<close>. Its floats are the reals that the 32-bit binary format holds, up to the
  largest one: a product and a converted \<open>int\<close> are rounded to the nearest such
  value, to the even one of two that are equally near, in steps of \<open>2 ^ (b - 23)\<close> in
  the binade \<open>b\<close> and of \<open>2 ^ -149\<close> below the normal range; the conversion to
  \<open>int\<close> truncates towards zero and gives the least \<open>int\<close> for a value that does
  not fit, as the x86 instruction does.
\<close>

fun example_binade :: "nat \<Rightarrow> real \<Rightarrow> int" where
  "example_binade 0 x = 0"
| "example_binade (Suc k) x =
     (if 2 \<le> x then example_binade k (x / 2) + 1
      else if x < 1 then example_binade k (x * 2) - 1
      else 0)"

definition example_nearest_even :: "real \<Rightarrow> int" where
  "example_nearest_even y =
     (let f = \<lfloor>y\<rfloor>; r = y - real_of_int f
      in if r < 1 / 2 then f else if 1 / 2 < r then f + 1 else if even f then f else f + 1)"

definition example_round32 :: "real \<Rightarrow> real" where
  "example_round32 x =
     (if x = 0 then 0
      else
        let b = max (example_binade 300 \<bar>x\<bar>) (- 126);
            u = (if 23 \<le> b then 2 ^ nat (b - 23) else 1 / 2 ^ nat (23 - b))
        in sgn x * real_of_int (example_nearest_even (\<bar>x\<bar> / u)) * u)"

definition example_int_of_float :: "real \<Rightarrow> int" where
  "example_int_of_float x =
     (let t = (if 0 \<le> x then \<lfloor>x\<rfloor> else \<lceil>x\<rceil>)
      in if - 2147483648 \<le> t \<and> t \<le> 2147483647 then t else - 2147483648)"

fun example_digits :: "nat \<Rightarrow> string" where
  "example_digits n =
     (if n < 10 then [''0123456789'' ! n]
      else example_digits (n div 10) @ [''0123456789'' ! (n mod 10)])"

definition example_tr_n :: "string \<Rightarrow> int \<Rightarrow> string" where
  "example_tr_n s n =
     (if take 2 s = ''%n''
      then (if n < 0 then ''-'' else []) @ example_digits (nat \<bar>n\<bar>) @ drop 2 s
      else s)"

definition example_env :: "real env" where
  "example_env =
     \<lparr>homePath = ''/home/user'',
      isDir = (\<lambda>p. p = ''/music'' \<or> p = ''/out''),
      tr_n = example_tr_n,
      startTimer = (\<lambda>msec. 7),
      float_of_int = (\<lambda>n. example_round32 (real_of_int n)),
      float_mul = (\<lambda>x y. example_round32 (x * y)),
      int_of_float = example_int_of_float\<rparr>"

definition example_ogg :: TranscoderPreset where
  "example_ogg = \<lparr>name = ''Ogg Vorbis'', extension = ''ogg'', codec_mimetype = ''audio/x-vorbis''\<rparr>"

definition example_flac :: TranscoderPreset where
  "example_flac = \<lparr>name = ''Flac'', extension = ''flac'', codec_mimetype = ''audio/x-flac''\<rparr>"

definition example_mp3 :: TranscoderPreset where
  "example_mp3 = \<lparr>name = ''MP3'', extension = ''mp3'', codec_mimetype = ''audio/mpeg''\<rparr>"

text \<open>A dialog with no files and no presets, and one ready to start with two files.\<close>

definition example_dialog :: dialog where
  "example_dialog =
     \<lparr>files = [],
      format = \<lparr>items = [], currentIndex = -1\<rparr>,
      destination = \<lparr>items = [(''Alongside the originals'', Invalid), (''/music'', VString ''/music'')],
                     currentIndex = 0\<rparr>,
      queued = 0, finished_success = 0, finished_failed = 0,
      last_add_dir = ''/home/user'', last_import_dir = ''/home/user'',
      progress_timer = \<lparr>timerId = 0, interval = 0\<rparr>,
      start_button_visible = True, cancel_button_visible = False, close_button_visible = True,
      input_group_enabled = True, output_group_enabled = True, progress_group_visible = False,
      progress_bar_value = 0, progress_bar_maximum = 100, progress_text = [],
      log_text = [], transcoder = [], settings = (\<lambda>k. None)\<rparr>"

definition example_ready :: dialog where
  "example_ready =
     example_dialog
       \<lparr>files := [\<lparr>column_name = ''one.mp3'', column_path = ''/home/user'',
                   user_data = ''/home/user/one.mp3''\<rparr>,
                  \<lparr>column_name = ''two.tar.wav'', column_path = ''/tmp'',
                   user_data = ''/tmp/two.tar.wav''\<rparr>],
        format := \<lparr>items = [(''Flac (.flac)'', VPreset example_flac),
                             (''Ogg Vorbis (.ogg)'', VPreset example_ogg)],
                    currentIndex = 1\<rparr>,
        destination := \<lparr>items = [(''Alongside the originals'', Invalid),
                                  (''/music'', VString ''/music'')],
                         currentIndex = 1\<rparr>\<rparr>"

text \<open>A destination box with only its first item, and a full one.\<close>

definition example_fresh_box :: QComboBox where
  "example_fresh_box = \<lparr>items = [(''Alongside the originals'', Invalid)], currentIndex = 0\<rparr>"

definition example_full_box :: QComboBox where
  "example_full_box =
     \<lparr>items = [(''Alongside the originals'', Invalid),
               (''/a'', VString ''/a''), (''/b'', VString ''/b''), (''/c'', VString ''/c''),
               (''/d'', VString ''/d''), (''/e'', VString ''/e''), (''/f'', VString ''/f''),
               (''/g'', VString ''/g''), (''/h'', VString ''/h''), (''/i'', VString ''/i'')],
      currentIndex = 9\<rparr>"

text \<open>A list of 21474837 files, the first length whose hundredfold leaves 32 bits.\<close>

definition example_many :: dialog where
  "example_many =
     example_ready
       \<lparr>files := replicate 21474837
                   \<lparr>column_name = ''one.mp3'', column_path = ''/home/user'',
                    user_data = ''/home/user/one.mp3''\<rparr>\<rparr>"

definition example_done_one :: "real notification" where
  "example_done_one =
     ([(fromLocalFile ''/tmp/two.tar.wav'', 1 / 2)], fromLocalFile ''/home/user/one.mp3'',
      ''/music/one.ogg'', True)"

definition example_done_two :: "real notification" where
  "example_done_two = ([], fromLocalFile ''/tmp/two.tar.wav'', ''/music/two.tar.ogg'', False)"

text \<open>Insertion sort by a comparison: one function that meets the contract of \<open>std::sort\<close>.\<close>

fun insert_by :: "('a \<Rightarrow> 'a \<Rightarrow> bool) \<Rightarrow> 'a \<Rightarrow> 'a list \<Rightarrow> 'a list" where
  "insert_by cmp x [] = [x]"
| "insert_by cmp x (y # ys) = (if cmp y x then y # insert_by cmp x ys else x # y # ys)"

definition example_sort :: "('a \<Rightarrow> 'a \<Rightarrow> bool) \<Rightarrow> 'a list \<Rightarrow> 'a list" where
  "example_sort cmp xs = foldr (insert_by cmp) xs []"

section \<open>The destination history\<close>

declare AddDestination_loop.simps [simp del]

lemma items_removeItem:
  "items (removeItem i c) =
     (if 0 \<le> i \<and> i < count_items c then take (nat i) (items c) @ drop (Suc (nat i)) (items c)
      else items c)"
  by (simp add: removeItem_def Let_def)

lemma AddDestination_loop_small:
  "count_items c < kMaxDestinationItems \<Longrightarrow> AddDestination_loop c = c"
  by (simp add: AddDestination_loop.simps)

lemma items_AddDestination_loop:
  "items (AddDestination_loop c) =
     (if kMaxDestinationItems \<le> count_items c
      then take 1 (items c) @ drop (length (items c) - 8) (items c)
      else items c)"
proof (induction c rule: AddDestination_loop.induct)
  case (1 c)
  show ?case
  proof (cases "kMaxDestinationItems \<le> count_items c")
    case False
    then show ?thesis by (simp add: AddDestination_loop.simps)
  next
    case True
    then have len: "10 \<le> length (items c)"
      by (simp add: kMaxDestinationItems_def count_items_def)
    have step: "AddDestination_loop c = AddDestination_loop (removeItem 1 c)"
      using True by (subst AddDestination_loop.simps) simp
    have its: "items (removeItem 1 c) = take 1 (items c) @ drop 2 (items c)"
      using len by (simp add: items_removeItem count_items_def numeral_2_eq_2)
    show ?thesis
    proof (cases "kMaxDestinationItems \<le> count_items (removeItem 1 c)")
      case False
      then have "length (items c) = 10"
        using len its by (simp add: kMaxDestinationItems_def count_items_def)
      then show ?thesis
        using True False step 1 its by simp
    next
      case T2: True
      then have len2: "11 \<le> length (items c)"
        using its len by (simp add: kMaxDestinationItems_def count_items_def)
      have "items (AddDestination_loop c) =
            take 1 (take 1 (items c) @ drop 2 (items c)) @
            drop (length (take 1 (items c) @ drop 2 (items c)) - 8) (take 1 (items c) @ drop 2 (items c))"
        using 1 True T2 step its by simp
      also have "\<dots> = take 1 (items c) @ drop (length (items c) - 8) (items c)"
      proof -
        have "Suc (Suc (length (items c) - 10)) = length (items c) - 8"
          using len2 by arith
        then show ?thesis using len2 by (simp add: min_def)
      qed
      finally show ?thesis using True by simp
    qed
  qed
qed


lemma paths_of_append: "paths_of (xs @ ys) = paths_of xs @ paths_of ys"
  by (induction xs) (auto split: QVariant.splits)

lemma set_paths_of: "s \<in> set (paths_of xs) \<longleftrightarrow> VString s \<in> snd ` set xs"
  by (induction xs) (auto split: QVariant.splits)

lemma distinct_paths_of_cut:
  assumes "distinct (paths_of xs)" and "n \<le> m"
  shows "distinct (paths_of (take n xs @ drop m xs))"
proof -
  have "xs = take n xs @ take (m - n) (drop n xs) @ drop m xs"
    using assms(2) by (metis add_diff_inverse_nat append_take_drop_id drop_drop not_less add.commute)
  then have "distinct (paths_of (take n xs @ take (m - n) (drop n xs) @ drop m xs))"
    using assms(1) by simp
  then show ?thesis
    by (auto simp: paths_of_append)
qed

lemma findData_from_none:
  "0 \<le> i \<Longrightarrow> findData_from v xs i = -1 \<longleftrightarrow> v \<notin> snd ` set xs"
proof (induction xs arbitrary: i)
  case Nil
  then show ?case by simp
next
  case (Cons x xs)
  have "0 \<le> i + 1" using Cons.prems by simp
  from Cons.IH [OF this] Cons.prems show ?case by auto
qed

lemma findData_from_found:
  "v \<in> snd ` set xs \<Longrightarrow>
     i \<le> findData_from v xs i \<and> findData_from v xs i < i + int (length xs) \<and>
     snd (xs ! nat (findData_from v xs i - i)) = v"
proof (induction xs arbitrary: i)
  case Nil
  then show ?case by simp
next
  case (Cons x xs)
  show ?case
  proof (cases "snd x = v")
    case True
    then show ?thesis by simp
  next
    case False
    then have "v \<in> snd ` set xs" using Cons.prems by auto
    from Cons.IH [OF this, of "i + 1"]
    have a: "i + 1 \<le> findData_from v xs (i + 1)"
      and b: "findData_from v xs (i + 1) < i + 1 + int (length xs)"
      and c: "snd (xs ! nat (findData_from v xs (i + 1) - (i + 1))) = v"
      by simp_all
    have "nat (findData_from v xs (i + 1) - i) = Suc (nat (findData_from v xs (i + 1) - (i + 1)))"
      using a by simp
    then show ?thesis using False a b c by simp
  qed
qed

lemma count_items_AddDestination_loop:
  "count_items (AddDestination_loop c) < kMaxDestinationItems"
  by (simp add: count_items_def items_AddDestination_loop kMaxDestinationItems_def)

lemma distinct_AddDestination_loop:
  "distinct (folder_paths c) \<Longrightarrow> distinct (folder_paths (AddDestination_loop c))"
  by (simp add: folder_paths_def items_AddDestination_loop distinct_paths_of_cut
        kMaxDestinationItems_def count_items_def)

lemma items_setCurrentIndex [simp]: "items (setCurrentIndex i c) = items c"
  by (simp add: setCurrentIndex_def)

lemma count_items_setCurrentIndex [simp]: "count_items (setCurrentIndex i c) = count_items c"
  by (simp add: count_items_def)

lemma folder_paths_setCurrentIndex [simp]: "folder_paths (setCurrentIndex i c) = folder_paths c"
  by (simp add: folder_paths_def)

lemma AddDestination_bounded:
  "count_items (destination d) \<le> kMaxDestinationItems \<Longrightarrow>
   count_items (destination (AddDestination dir d)) \<le> kMaxDestinationItems"
  using count_items_AddDestination_loop [of "destination d"]
  by (auto simp: AddDestination_def Let_def addItem_def count_items_def)

lemma AddDestination_distinct:
  assumes "distinct (folder_paths (destination d))"
  shows "distinct (folder_paths (destination (AddDestination dir d)))"
proof (cases "dir = []")
  case True
  then show ?thesis using assms by (simp add: AddDestination_def)
next
  case False
  let ?box = "AddDestination_loop (destination d)"
  have dl: "distinct (folder_paths ?box)"
    using assms by (rule distinct_AddDestination_loop)
  show ?thesis
  proof (cases "findData (VString dir) ?box = -1")
    case True
    then have "VString dir \<notin> snd ` set (items ?box)"
      by (simp add: findData_def findData_from_none)
    then have "dir \<notin> set (folder_paths ?box)"
      by (simp add: folder_paths_def set_paths_of)
    then show ?thesis
      using False True dl
      by (simp add: AddDestination_def Let_def addItem_def folder_paths_def paths_of_append)
  next
    case F: False
    then show ?thesis
      using False dl by (simp add: AddDestination_def Let_def)
  qed
qed

lemma AddDestinations_invariant:
  "count_items (destination d) \<le> kMaxDestinationItems \<Longrightarrow>
   distinct (folder_paths (destination d)) \<Longrightarrow>
   count_items (destination (AddDestinations dirs d)) \<le> kMaxDestinationItems \<and>
   distinct (folder_paths (destination (AddDestinations dirs d)))"
proof (induction dirs arbitrary: d)
  case Nil
  then show ?case by simp
next
  case (Cons dir dirs)
  show ?case
    using Cons.IH [OF AddDestination_bounded [OF Cons.prems(1)] AddDestination_distinct [OF Cons.prems(2)]]
    by simp
qed


lemma AddDestination_loop_full:
  assumes "count_items c = kMaxDestinationItems"
  shows "AddDestination_loop c = removeItem 1 c"
proof -
  have "count_items (removeItem 1 c) < kMaxDestinationItems"
    using assms by (simp add: count_items_def items_removeItem kMaxDestinationItems_def)
  then have "AddDestination_loop (removeItem 1 c) = removeItem 1 c"
    by (rule AddDestination_loop_small)
  then show ?thesis
    using assms by (subst AddDestination_loop.simps) simp
qed

lemma AddDestination_selects:
  assumes "dir \<noteq> []"
  shows "itemData (destination (AddDestination dir d))
           (currentIndex (destination (AddDestination dir d))) = VString dir"
proof -
  let ?box = "AddDestination_loop (destination d)"
  show ?thesis
  proof (cases "findData (VString dir) ?box = -1")
    case True
    then show ?thesis
      using assms
      by (simp add: AddDestination_def Let_def addItem_def setCurrentIndex_def itemData_def
            count_items_def nth_append)
  next
    case False
    then have "VString dir \<in> snd ` set (items ?box)"
      using findData_from_none [of 0 "VString dir" "items ?box"] by (simp add: findData_def)
    from findData_from_found [OF this, of 0]
    have "0 \<le> findData (VString dir) ?box"
      and "findData (VString dir) ?box < count_items ?box"
      and "snd (items ?box ! nat (findData (VString dir) ?box)) = VString dir"
      by (simp_all add: findData_def count_items_def)
    then show ?thesis
      using assms False
      by (simp add: AddDestination_def Let_def setCurrentIndex_def itemData_def count_items_def)
  qed
qed

lemma AddDestination_present_not_full:
  assumes "dir \<noteq> []" and "dir \<in> set (folder_paths (destination d))"
    and "count_items (destination d) < kMaxDestinationItems"
  shows "destination (AddDestination dir d) =
           setCurrentIndex (findData (VString dir) (destination d)) (destination d)"
proof -
  have "VString dir \<in> snd ` set (items (destination d))"
    using assms(2) by (simp add: folder_paths_def set_paths_of)
  then have "findData (VString dir) (destination d) \<noteq> -1"
    using findData_from_none [of 0 "VString dir" "items (destination d)"] by (simp add: findData_def)
  then show ?thesis
    using assms(1) AddDestination_loop_small [OF assms(3)]
    by (simp add: AddDestination_def Let_def)
qed

lemma AddDestination_full:
  assumes "dir \<noteq> []" and "count_items (destination d) = kMaxDestinationItems"
  shows "destination (AddDestination dir d) =
           (let box = removeItem 1 (destination d)
            in if dir \<in> set (folder_paths box)
               then setCurrentIndex (findData (VString dir) box) box
               else setCurrentIndex (count_items box) (addItem dir (VString dir) box))"
proof -
  let ?box = "removeItem 1 (destination d)"
  have "findData (VString dir) ?box = -1 \<longleftrightarrow> dir \<notin> set (folder_paths ?box)"
    using findData_from_none [of 0 "VString dir" "items ?box"]
    by (simp add: findData_def folder_paths_def set_paths_of)
  then show ?thesis
    using assms(1) AddDestination_loop_full [OF assms(2)]
    by (auto simp: AddDestination_def Let_def addItem_def count_items_def)
qed

lemma itemData_folder_path:
  "itemData c i = VString s \<Longrightarrow> s \<in> set (folder_paths c)"
proof -
  assume h: "itemData c i = VString s"
  then have r: "0 \<le> i \<and> i < count_items c"
    by (auto simp: itemData_def split: if_splits)
  then have "snd (items c ! nat i) = VString s" and "nat i < length (items c)"
    using h by (auto simp: itemData_def count_items_def)
  then have "VString s \<in> snd ` set (items c)"
    by (metis image_eqI nth_mem)
  then show ?thesis
    by (simp add: folder_paths_def set_paths_of)
qed

text \<open>
  The full box is reached from the box with only its first item by choosing nine folders.
\<close>

lemma example_full_box_reached:
  "destination
     (AddDestinations [''/a'', ''/b'', ''/c'', ''/d'', ''/e'', ''/f'', ''/g'', ''/h'', ''/i'']
        (example_dialog\<lparr>destination := example_fresh_box\<rparr>)) = example_full_box"
  by (simp add: AddDestination_def Let_def AddDestination_loop_small example_fresh_box_def
        example_full_box_def findData_def addItem_def setCurrentIndex_def count_items_def
        kMaxDestinationItems_def)

text \<open>
  C1, as stated, fails in a full box. The box holds ten entries and the chosen folder
  \<open>/a\<close> is present at index 1. The loop that keeps the box finite runs before the search
  for a duplicate and removes index 1, so the search finds nothing: the existing entry is
  not selected; the folder is appended as a new last entry and that one is selected.
\<close>

theorem AddDestination_full_box_counterexample:
  "findData (VString ''/a'') example_full_box = 1 \<and>
   destination (AddDestination ''/a'' (example_dialog\<lparr>destination := example_full_box\<rparr>)) =
     \<lparr>items = [(''Alongside the originals'', Invalid),
               (''/b'', VString ''/b''), (''/c'', VString ''/c''),
               (''/d'', VString ''/d''), (''/e'', VString ''/e''), (''/f'', VString ''/f''),
               (''/g'', VString ''/g''), (''/h'', VString ''/h''), (''/i'', VString ''/i''),
               (''/a'', VString ''/a'')],
      currentIndex = 9\<rparr> \<and>
   destination (AddDestination ''/a'' (example_dialog\<lparr>destination := example_full_box\<rparr>)) \<noteq>
     setCurrentIndex (findData (VString ''/a'') example_full_box) example_full_box"
proof -
  have full: "count_items (destination (example_dialog\<lparr>destination := example_full_box\<rparr>)) = kMaxDestinationItems"
    by (simp add: example_full_box_def count_items_def kMaxDestinationItems_def)
  have "AddDestination_loop example_full_box = removeItem 1 example_full_box"
    using AddDestination_loop_full [OF full] by simp
  then show ?thesis
    by (simp add: AddDestination_def Let_def example_full_box_def removeItem_def findData_def
          addItem_def setCurrentIndex_def count_items_def)
qed

text \<open>
  In a full box the entry at index 1 goes first. A chosen folder that stands at another
  position is still present after that, and it is selected there.
\<close>

lemma AddDestination_present:
  assumes "dir \<noteq> []" and "dir \<in> set (folder_paths (destination d))"
    and "count_items (destination d) \<le> kMaxDestinationItems"
    and "\<not> (count_items (destination d) = kMaxDestinationItems \<and>
            findData (VString dir) (destination d) = 1)"
  shows "let box = (if count_items (destination d) < kMaxDestinationItems then destination d
                    else removeItem 1 (destination d))
         in destination (AddDestination dir d) = setCurrentIndex (findData (VString dir) box) box \<and>
            findData (VString dir) box \<noteq> -1"
proof (cases "count_items (destination d) < kMaxDestinationItems")
  case True
  have "VString dir \<in> snd ` set (items (destination d))"
    using assms(2) by (simp add: folder_paths_def set_paths_of)
  then have "findData (VString dir) (destination d) \<noteq> -1"
    using findData_from_none [of 0 "VString dir" "items (destination d)"] by (simp add: findData_def)
  then show ?thesis
    using True AddDestination_present_not_full [OF assms(1,2) True] by simp
next
  case False
  then have full: "count_items (destination d) = kMaxDestinationItems"
    using assms(3) by simp
  let ?its = "items (destination d)"
  let ?k = "findData (VString dir) (destination d)"
  let ?box = "removeItem 1 (destination d)"
  have len: "length ?its = 10"
    using full by (simp add: count_items_def kMaxDestinationItems_def)
  have "VString dir \<in> snd ` set ?its"
    using assms(2) by (simp add: folder_paths_def set_paths_of)
  from findData_from_found [OF this, of 0]
  have k0: "0 \<le> ?k" and k1: "nat ?k < length ?its" and kd: "snd (?its ! nat ?k) = VString dir"
    by (auto simp: findData_def)
  have kn: "?k \<noteq> 1"
    using assms(4) full by simp
  have its': "items ?box = take 1 ?its @ drop 2 ?its"
    using len by (simp add: items_removeItem count_items_def numeral_2_eq_2)
  have "?its ! nat ?k \<in> set (take 1 ?its @ drop 2 ?its)"
  proof (cases "?k = 0")
    case True
    then have "?its ! nat ?k = take 1 ?its ! 0" by simp
    moreover have "0 < length (take 1 ?its)" using len by simp
    ultimately show ?thesis by (metis UnI1 nth_mem set_append)
  next
    case False
    then have ge: "2 \<le> nat ?k" using k0 kn by simp
    then have "Suc (Suc (nat ?k - 2)) = nat ?k" by arith
    then have "?its ! nat ?k = drop 2 ?its ! (nat ?k - 2)" using k1 by simp
    moreover have "nat ?k - 2 < length (drop 2 ?its)" using ge k1 by simp
    ultimately show ?thesis by (metis UnI2 nth_mem set_append)
  qed
  then have "VString dir \<in> snd ` set (items ?box)"
    using kd its' by (metis image_eqI)
  then have present: "dir \<in> set (folder_paths ?box)"
    and found: "findData (VString dir) ?box \<noteq> -1"
    using findData_from_none [of 0 "VString dir" "items ?box"]
    by (simp_all add: folder_paths_def set_paths_of findData_def)
  show ?thesis
    using False found present AddDestination_full [OF assms(1) full] by (simp add: Let_def)
qed

text \<open>
  C1 (amended). Start from a destination box with at most \<open>kMaxDestinationItems\<close> = 10
  entries and no folder path twice. After every sequence of \<open>AddDestination\<close> actions
  (a cancelled dialog is the empty folder) the box holds at most 10 entries and no folder
  path twice. After an action with a chosen folder, the current entry carries that folder,
  which is then among the folder paths of the box, once. When the chosen folder is already
  present, the existing entry is selected and no entry is added, unless the box holds 10
  entries and the chosen folder is its entry at index 1. The box in which the entry is
  selected is the box before the action when that holds fewer than 10 entries, and that
  box without its entry at index 1 when it holds 10.
\<close>

theorem AddDestination_history:
  assumes "count_items (destination d) \<le> kMaxDestinationItems"
    and "distinct (folder_paths (destination d))"
  shows "count_items (destination (AddDestinations dirs d)) \<le> kMaxDestinationItems \<and>
         distinct (folder_paths (destination (AddDestinations dirs d))) \<and>
         (dir \<noteq> [] \<longrightarrow>
            itemData (destination (AddDestination dir d))
              (currentIndex (destination (AddDestination dir d))) = VString dir \<and>
            dir \<in> set (folder_paths (destination (AddDestination dir d))) \<and>
            distinct (folder_paths (destination (AddDestination dir d)))) \<and>
         (dir \<noteq> [] \<and> dir \<in> set (folder_paths (destination d)) \<and>
          \<not> (count_items (destination d) = kMaxDestinationItems \<and>
             findData (VString dir) (destination d) = 1) \<longrightarrow>
            (let box = (if count_items (destination d) < kMaxDestinationItems
                        then destination d else removeItem 1 (destination d))
             in destination (AddDestination dir d) =
                  setCurrentIndex (findData (VString dir) box) box \<and>
                findData (VString dir) box \<noteq> -1))"
proof -
  note inv = AddDestinations_invariant [OF assms, of dirs]
  have sel: "itemData (destination (AddDestination dir d))
              (currentIndex (destination (AddDestination dir d))) = VString dir \<and>
            dir \<in> set (folder_paths (destination (AddDestination dir d)))"
    if "dir \<noteq> []"
    using AddDestination_selects [OF that, of d] itemData_folder_path by blast
  have pres: "(let box = (if count_items (destination d) < kMaxDestinationItems
                        then destination d else removeItem 1 (destination d))
             in destination (AddDestination dir d) =
                  setCurrentIndex (findData (VString dir) box) box \<and>
                findData (VString dir) box \<noteq> -1)"
    if "dir \<noteq> []" "dir \<in> set (folder_paths (destination d))"
      "\<not> (count_items (destination d) = kMaxDestinationItems \<and>
             findData (VString dir) (destination d) = 1)"
    using AddDestination_present [OF that(1,2) assms(1) that(3)] .
  show ?thesis
    using inv sel pres AddDestination_distinct [OF assms(2), of dir]
    by blast
qed

theorem AddDestination_history_witness:
  "count_items (destination example_dialog) \<le> kMaxDestinationItems \<and>
   distinct (folder_paths (destination example_dialog)) \<and>
   ''/music'' \<in> set (folder_paths (destination example_dialog)) \<and>
   count_items (destination example_dialog) < kMaxDestinationItems \<and>
   count_items (destination (AddDestinations [''/out'', ''/music''] example_dialog))
     \<le> kMaxDestinationItems \<and>
   distinct (folder_paths (destination (AddDestinations [''/out'', ''/music''] example_dialog))) \<and>
   itemData (destination (AddDestination ''/music'' example_dialog))
     (currentIndex (destination (AddDestination ''/music'' example_dialog))) = VString ''/music'' \<and>
   destination (AddDestination ''/music'' example_dialog) =
     setCurrentIndex 1 (destination example_dialog) \<and>
   count_items example_full_box = kMaxDestinationItems \<and>
   distinct (folder_paths example_full_box) \<and>
   ''/c'' \<in> set (folder_paths example_full_box) \<and>
   findData (VString ''/c'') example_full_box = 3 \<and>
   destination (AddDestination ''/c'' (example_dialog\<lparr>destination := example_full_box\<rparr>)) =
     \<lparr>items = [(''Alongside the originals'', Invalid),
               (''/b'', VString ''/b''), (''/c'', VString ''/c''),
               (''/d'', VString ''/d''), (''/e'', VString ''/e''), (''/f'', VString ''/f''),
               (''/g'', VString ''/g''), (''/h'', VString ''/h''), (''/i'', VString ''/i'')],
      currentIndex = 2\<rparr>"
proof -
  have h1: "count_items (destination example_dialog) \<le> kMaxDestinationItems"
    by (simp add: example_dialog_def count_items_def kMaxDestinationItems_def)
  have h2: "distinct (folder_paths (destination example_dialog))"
    by (simp add: example_dialog_def folder_paths_def)
  have h3: "count_items (destination example_dialog) < kMaxDestinationItems"
    by (simp add: example_dialog_def count_items_def kMaxDestinationItems_def)
  have h4: "''/music'' \<in> set (folder_paths (destination example_dialog))"
    by (simp add: example_dialog_def folder_paths_def)
  have h5: "findData (VString ''/music'') (destination example_dialog) = 1"
    by (simp add: example_dialog_def findData_def)
  note a = AddDestination_history [OF h1 h2, of "[''/out'', ''/music'']" "''/music''"]
  have ne: "''/music'' \<noteq> []" by simp
  from a have a1: "count_items (destination (AddDestinations [''/out'', ''/music''] example_dialog))
     \<le> kMaxDestinationItems" by blast
  from a have a2: "distinct (folder_paths (destination (AddDestinations [''/out'', ''/music''] example_dialog)))"
    by blast
  from a ne have a3: "itemData (destination (AddDestination ''/music'' example_dialog))
     (currentIndex (destination (AddDestination ''/music'' example_dialog))) = VString ''/music''"
    by blast
  from a ne h3 h4 have "let box = (if count_items (destination example_dialog) < kMaxDestinationItems
                        then destination example_dialog
                        else removeItem 1 (destination example_dialog))
             in destination (AddDestination ''/music'' example_dialog) =
                  setCurrentIndex (findData (VString ''/music'') box) box \<and>
                findData (VString ''/music'') box \<noteq> -1"
    by (metis less_irrefl)
  then have a4: "destination (AddDestination ''/music'' example_dialog) =
     setCurrentIndex 1 (destination example_dialog)"
    by (simp add: h3 h5 Let_def)
  let ?full = "example_dialog\<lparr>destination := example_full_box\<rparr>"
  have f1: "count_items (destination ?full) \<le> kMaxDestinationItems"
    and f1': "count_items (destination ?full) = kMaxDestinationItems"
    by (simp_all add: example_full_box_def count_items_def kMaxDestinationItems_def)
  have f2: "distinct (folder_paths (destination ?full))"
    by (simp add: example_full_box_def folder_paths_def)
  have f3: "''/c'' \<in> set (folder_paths (destination ?full))"
    by (simp add: example_full_box_def folder_paths_def)
  have f4: "findData (VString ''/c'') (destination ?full) = 3"
    by (simp add: example_full_box_def findData_def)
  have nc: "''/c'' \<noteq> []" by simp
  have n1: "\<not> (count_items (destination ?full) = kMaxDestinationItems \<and>
             findData (VString ''/c'') (destination ?full) = 1)"
    using f4 by simp
  note b = AddDestination_history [OF f1 f2, of "[]" "''/c''"]
  from b nc f3 n1 have step: "let box = (if count_items (destination ?full) < kMaxDestinationItems
                        then destination ?full else removeItem 1 (destination ?full))
             in destination (AddDestination ''/c'' ?full) =
                  setCurrentIndex (findData (VString ''/c'') box) box \<and>
                findData (VString ''/c'') box \<noteq> -1"
    by blast
  have g1: "count_items example_full_box = kMaxDestinationItems"
    using f1' by simp
  have "destination (AddDestination ''/c'' ?full) =
     setCurrentIndex (findData (VString ''/c'') (removeItem 1 example_full_box))
       (removeItem 1 example_full_box)"
    using step by (simp add: g1 Let_def)
  then have b1: "destination (AddDestination ''/c'' ?full) =
     \<lparr>items = [(''Alongside the originals'', Invalid),
               (''/b'', VString ''/b''), (''/c'', VString ''/c''),
               (''/d'', VString ''/d''), (''/e'', VString ''/e''), (''/f'', VString ''/f''),
               (''/g'', VString ''/g''), (''/h'', VString ''/h''), (''/i'', VString ''/i'')],
      currentIndex = 2\<rparr>"
    by (simp add: example_full_box_def removeItem_def findData_def
          setCurrentIndex_def count_items_def)
  have g2: "distinct (folder_paths example_full_box)" using f2 by simp
  have g3: "''/c'' \<in> set (folder_paths example_full_box)" using f3 by simp
  have g4: "findData (VString ''/c'') example_full_box = 3" using f4 by simp
  show ?thesis
    using h1 h2 h3 h4 a1 a2 a3 a4 g1 g2 g3 g4 b1 by blast
qed

section \<open>Runs: Start, JobComplete and the progress bar\<close>

lemma int32_id: "- 2147483648 \<le> x \<Longrightarrow> x \<le> 2147483647 \<Longrightarrow> int32 x = x"
  by (simp add: int32_def)

lemma GetOutputFileName_transcoder [simp]:
  "GetOutputFileName e (d\<lparr>transcoder := t\<rparr>) input preset = GetOutputFileName e d input preset"
  by (simp add: GetOutputFileName_def)

lemma Start_loop_eq:
  "Start_loop e preset fs d =
     d\<lparr>transcoder := transcoder d @
          map (\<lambda>f. Transcoder_AddJob (fromLocalFile (user_data f)) preset
                     (GetOutputFileName e d (user_data f) preset)) fs\<rparr>"
  by (induction fs arbitrary: d) (simp_all add: Let_def filePath_def)

lemma transcoder_Start:
  "files d \<noteq> [] \<Longrightarrow>
   transcoder (Start e d) =
     transcoder d @
     map (\<lambda>f. Transcoder_AddJob (fromLocalFile (user_data f)) (current_preset d)
                (GetOutputFileName e d (user_data f) (current_preset d))) (files d) @
     [Transcoder_Start]"
  by (simp add: Start_def Let_def Start_loop_eq SetWorking_def UpdateStatusText_def
        current_preset_def GetOutputFileName_def)

lemma counters_Start:
  "files d \<noteq> [] \<Longrightarrow>
   queued (Start e d) = int (length (files d)) \<and> finished_success (Start e d) = 0 \<and>
   finished_failed (Start e d) = 0 \<and> progress_bar_value (Start e d) = 0 \<and>
   progress_bar_maximum (Start e d) = int32 (int (length (files d)) * 100)"
  by (simp add: Start_def Let_def Start_loop_eq SetWorking_def UpdateStatusText_def)

lemma UpdateStatusText_eq:
  "UpdateStatusText e d =
     d\<lparr>progress_text := status_text e (queued d) (finished_success d) (finished_failed d)\<rparr>"
  by (simp add: UpdateStatusText_def status_text_def Let_def)

lemma scaled_range: "0 \<le> scaled e v \<and> scaled e v \<le> 99"
  by (simp add: scaled_def qBound_def)

lemma sum_scaled_le: "sum_list (map (scaled e) vs) \<le> 99 * int (length vs)"
proof (induction vs)
  case Nil
  show ?case by simp
next
  case (Cons v vs)
  have "scaled e v \<le> 99" using scaled_range [of e v] by simp
  with Cons show ?case by simp
qed

lemma sum_scaled_nonneg: "0 \<le> sum_list (map (scaled e) vs)"
  using scaled_range [of e] by (induction vs) simp_all

text \<open>While the running sum fits 32 bits, the loop adds up what the jobs contribute.\<close>

lemma UpdateProgress_loop_sum:
  "- 2147483648 \<le> progress \<Longrightarrow> progress + 99 * int (length vs) \<le> 2147483647 \<Longrightarrow>
   UpdateProgress_loop e vs progress = progress + sum_list (map (scaled e) vs)"
proof (induction vs arbitrary: progress)
  case Nil
  show ?case by simp
next
  case (Cons v vs)
  have r: "0 \<le> scaled e v" "scaled e v \<le> 99"
    using scaled_range [of e v] by simp_all
  have fit: "int32 (progress + scaled e v) = progress + scaled e v"
    using Cons.prems r by (intro int32_id) simp_all
  have "UpdateProgress_loop e (v # vs) progress =
        UpdateProgress_loop e vs (progress + scaled e v)"
    using fit by (simp add: scaled_def)
  also have "\<dots> = progress + scaled e v + sum_list (map (scaled e) vs)"
    using Cons.prems r by (intro Cons.IH) simp_all
  finally show ?case by simp
qed

lemma UpdateProgress_frame:
  "UpdateProgress e current_jobs d =
     d\<lparr>progress_bar_value := progress_bar_value (UpdateProgress e current_jobs d)\<rparr>"
  by (simp add: UpdateProgress_def Let_def)


lemma UpdateProgress_value:
  assumes "0 \<le> finished_success d + finished_failed d"
    and "(finished_success d + finished_failed d) * 100 + 99 * int (length current_jobs)
           \<le> 2147483647"
  shows "progress_bar_value (UpdateProgress e current_jobs d) =
           (finished_success d + finished_failed d) * 100 +
           sum_list (map (scaled e) (map snd current_jobs))"
proof -
  let ?k = "finished_success d + finished_failed d"
  have k: "int32 ?k = ?k"
    using assms by (intro int32_id) simp_all
  have k100: "int32 (?k * 100) = ?k * 100"
    using assms by (intro int32_id) simp_all
  have "progress_bar_value (UpdateProgress e current_jobs d) =
        UpdateProgress_loop e (map snd current_jobs) (int32 (int32 ?k * 100))"
    by (simp add: UpdateProgress_def Let_def)
  also have "\<dots> = UpdateProgress_loop e (map snd current_jobs) (?k * 100)"
    by (simp only: k k100)
  also have "\<dots> = ?k * 100 + sum_list (map (scaled e) (map snd current_jobs))"
    using assms by (intro UpdateProgress_loop_sum) simp_all
  finally show ?thesis .
qed

lemma JobComplete_counters:
  "queued (JobComplete e cj i out s d) = queued d - 1 \<and>
   finished_success (JobComplete e cj i out s d) = finished_success d + (if s then 1 else 0) \<and>
   finished_failed (JobComplete e cj i out s d) = finished_failed d + (if s then 0 else 1) \<and>
   progress_bar_maximum (JobComplete e cj i out s d) = progress_bar_maximum d"
  by (simp add: JobComplete_def Let_def UpdateStatusText_def UpdateProgress_def)

lemma JobCompletes_counters:
  "queued (JobCompletes e ns d) = queued d - int (length ns) \<and>
   finished_success (JobCompletes e ns d) + finished_failed (JobCompletes e ns d) =
     finished_success d + finished_failed d + int (length ns) \<and>
   finished_success d \<le> finished_success (JobCompletes e ns d) \<and>
   finished_failed d \<le> finished_failed (JobCompletes e ns d) \<and>
   progress_bar_maximum (JobCompletes e ns d) = progress_bar_maximum d"
proof (induction ns arbitrary: d)
  case Nil
  show ?case by simp
next
  case (Cons n ns)
  obtain cj i out s where n: "n = (cj, i, out, s)" by (cases n) auto
  show ?case
    using Cons.IH [of "JobComplete e cj i out s d"] JobComplete_counters [of e cj i out s d]
    by (cases s) (simp_all add: n)
qed

text \<open>The example states, evaluated.\<close>

lemma files_example_ready: "files example_ready \<noteq> [] \<and> length (files example_ready) = 2"
  by (simp add: example_ready_def)

lemma current_preset_example_ready: "current_preset example_ready = example_ogg"
  by (simp add: current_preset_def example_ready_def itemData_def count_items_def
        value_TranscoderPreset_def)

lemma GetOutputFileName_example_ready:
  "GetOutputFileName example_env example_ready ''/home/user/one.mp3'' example_ogg = ''/music/one.ogg'' \<and>
   GetOutputFileName example_env example_ready ''/tmp/two.tar.wav'' example_ogg = ''/music/two.tar.ogg''"
  by (simp add: GetOutputFileName_def Let_def filePath_def example_env_def example_ready_def
        example_ogg_def itemData_def count_items_def
        toString_def QFileInfo_path_def completeBaseName_def fileName_def)

lemma JobCompletes_example:
  "queued (JobCompletes example_env [example_done_one, example_done_two]
            (Start example_env example_ready)) = 0 \<and>
   finished_success (JobCompletes example_env [example_done_one, example_done_two]
            (Start example_env example_ready)) = 1 \<and>
   finished_failed (JobCompletes example_env [example_done_one, example_done_two]
            (Start example_env example_ready)) = 1 \<and>
   queued (JobCompletes example_env [example_done_one] (Start example_env example_ready)) = 1 \<and>
   finished_success (JobCompletes example_env [example_done_one] (Start example_env example_ready)) = 1 \<and>
   finished_failed (JobCompletes example_env [example_done_one] (Start example_env example_ready)) = 0"
  using counters_Start [of example_ready example_env] files_example_ready
  by (simp add: example_done_one_def example_done_two_def JobComplete_counters)

lemma files_example_many:
  "files example_many \<noteq> [] \<and> int (length (files example_many)) = 21474837"
  by (simp add: example_many_def)

text \<open>
  On the example platform: half done is 50; the float nearest to 0.29 gives 29, since
  its product with 100 is rounded to the float 29; a value whose hundredfold does not fit
  an \<open>int\<close> gives 0.
\<close>

lemma example_scaled: "scaled example_env (1 / 2) = 50"
  by code_simp

lemma example_scaled_rounding:
  "example_round32 (29 / 100) = 9730785 / 33554432 \<and>
   scaled example_env (9730785 / 33554432) = 29 \<and>
   scaled example_env 30000000 = 0"
  by code_simp

text \<open>
  C2. A run is started by \<open>Start\<close> on a non-empty file list (on an empty list \<open>Start\<close>
  returns at once, see C8). For a run started with \<open>n\<close> listed files, \<open>Start\<close> sets
  \<open>queued\<close> to \<open>n\<close> and both finished counters to 0. After any sequence of at most
  \<open>n\<close> \<open>JobComplete\<close> notifications, whatever their outcomes and whatever progress
  the engine reports with them, the three counters are non-negative and their sum is \<open>n\<close>.
\<close>

theorem Start_JobComplete_counters:
  assumes "files d \<noteq> []" and "length ns \<le> length (files d)"
  shows "queued (Start e d) = int (length (files d)) \<and>
         finished_success (Start e d) = 0 \<and>
         finished_failed (Start e d) = 0 \<and>
         0 \<le> queued (JobCompletes e ns (Start e d)) \<and>
         0 \<le> finished_success (JobCompletes e ns (Start e d)) \<and>
         0 \<le> finished_failed (JobCompletes e ns (Start e d)) \<and>
         queued (JobCompletes e ns (Start e d)) +
         finished_success (JobCompletes e ns (Start e d)) +
         finished_failed (JobCompletes e ns (Start e d)) = int (length (files d))"
  using counters_Start [OF assms(1), of e] JobCompletes_counters [of e ns "Start e d"] assms(2)
  by simp

theorem Start_JobComplete_counters_witness:
  "files example_ready \<noteq> [] \<and>
   length [example_done_one, example_done_two] \<le> length (files example_ready) \<and>
   queued (Start example_env example_ready) = 2 \<and>
   finished_success (Start example_env example_ready) = 0 \<and>
   finished_failed (Start example_env example_ready) = 0 \<and>
   queued (JobCompletes example_env [example_done_one, example_done_two]
            (Start example_env example_ready)) = 0 \<and>
   finished_success (JobCompletes example_env [example_done_one, example_done_two]
            (Start example_env example_ready)) = 1 \<and>
   finished_failed (JobCompletes example_env [example_done_one, example_done_two]
            (Start example_env example_ready)) = 1 \<and>
   queued (JobCompletes example_env [example_done_one, example_done_two]
            (Start example_env example_ready)) +
   finished_success (JobCompletes example_env [example_done_one, example_done_two]
            (Start example_env example_ready)) +
   finished_failed (JobCompletes example_env [example_done_one, example_done_two]
            (Start example_env example_ready)) = int (length (files example_ready))"
proof -
  have h1: "files example_ready \<noteq> []"
    using files_example_ready by simp
  have h2: "length [example_done_one, example_done_two] \<le> length (files example_ready)"
    using files_example_ready by simp
  note t = Start_JobComplete_counters [OF h1 h2, of example_env]
  show ?thesis
    using h1 h2 t JobCompletes_example files_example_ready by simp
qed

text \<open>
  C8. \<open>Start\<close> on an empty file list returns the state it was given: no call on the
  engine, no change of the working state or the timer, the counters, the progress bar and
  the settings as they were.
\<close>

theorem Start_empty_noop:
  assumes "files d = []"
  shows "Start e d = d"
  using assms by (simp add: Start_def)

theorem Start_empty_noop_witness:
  "files example_dialog = [] \<and> Start example_env example_dialog = example_dialog"
proof -
  have h: "files example_dialog = []"
    by (simp add: example_dialog_def)
  from h Start_empty_noop [OF h, of example_env] show ?thesis by simp
qed

text \<open>
  C3, as stated, fails on a list of 21474837 files: \<open>count * 100\<close> is 2147483700, which
  a 32-bit \<open>int\<close> does not hold, and the maximum the bar is given is another number.
\<close>

theorem Start_submits_jobs_counterexample:
  "files example_many \<noteq> [] \<and>
   int (length (files example_many)) * 100 = 2147483700 \<and>
   progress_bar_maximum (Start example_env example_many) = - 2147483596"
  using counters_Start [of example_many example_env] files_example_many
  by (simp add: int32_def)

text \<open>
  C3 (amended). \<open>Start\<close> on a list of \<open>n > 0\<close> files makes these calls on the engine,
  after those made before: one \<open>AddJob\<close> per listed file, in the order of the list, each
  with the file as local URL, the preset selected in the format box and the output file
  name \<open>GetOutputFileName\<close> computes for that file and preset; then one \<open>Start\<close>. The
  progress bar's value is 0. Its maximum is \<open>n * 100\<close> as a 32-bit \<open>int\<close> holds it:
  \<open>n * 100\<close> itself when \<open>n\<close> is at most 21474836.
\<close>

theorem Start_submits_jobs:
  assumes "files d \<noteq> []"
  shows "transcoder (Start e d) =
           transcoder d @
           map (\<lambda>f. Transcoder_AddJob (fromLocalFile (user_data f)) (current_preset d)
                      (GetOutputFileName e d (user_data f) (current_preset d))) (files d) @
           [Transcoder_Start] \<and>
         progress_bar_value (Start e d) = 0 \<and>
         progress_bar_maximum (Start e d) = int32 (int (length (files d)) * 100) \<and>
         (length (files d) \<le> 21474836 \<longrightarrow>
            progress_bar_maximum (Start e d) = int (length (files d)) * 100)"
proof -
  have "int32 (int (length (files d)) * 100) = int (length (files d)) * 100"
    if "length (files d) \<le> 21474836"
    using that by (intro int32_id) simp_all
  then show ?thesis
    using transcoder_Start [OF assms, of e] counters_Start [OF assms, of e] by simp
qed

theorem Start_submits_jobs_witness:
  "files example_ready \<noteq> [] \<and>
   length (files example_ready) \<le> 21474836 \<and>
   transcoder (Start example_env example_ready) =
     [Transcoder_AddJob (fromLocalFile ''/home/user/one.mp3'') example_ogg ''/music/one.ogg'',
      Transcoder_AddJob (fromLocalFile ''/tmp/two.tar.wav'') example_ogg ''/music/two.tar.ogg'',
      Transcoder_Start] \<and>
   progress_bar_maximum (Start example_env example_ready) = 200 \<and>
   progress_bar_value (Start example_env example_ready) = 0"
proof -
  have h: "files example_ready \<noteq> []"
    using files_example_ready by simp
  have n: "length (files example_ready) \<le> 21474836"
    using files_example_ready by simp
  have fs: "files example_ready =
      [\<lparr>column_name = ''one.mp3'', column_path = ''/home/user'', user_data = ''/home/user/one.mp3''\<rparr>,
       \<lparr>column_name = ''two.tar.wav'', column_path = ''/tmp'', user_data = ''/tmp/two.tar.wav''\<rparr>]"
    and tr: "transcoder example_ready = []"
    by (simp_all add: example_ready_def example_dialog_def)
  note t = Start_submits_jobs [OF h, of example_env]
  from t n have mx: "progress_bar_maximum (Start example_env example_ready) =
      int (length (files example_ready)) * 100"
    by blast
  from t have tc: "transcoder (Start example_env example_ready) =
           transcoder example_ready @
           map (\<lambda>f. Transcoder_AddJob (fromLocalFile (user_data f)) (current_preset example_ready)
                      (GetOutputFileName example_env example_ready (user_data f)
                         (current_preset example_ready))) (files example_ready) @
           [Transcoder_Start]"
    and v: "progress_bar_value (Start example_env example_ready) = 0"
    by blast+
  show ?thesis
    using h n mx tc v
    by (simp add: fs tr current_preset_example_ready GetOutputFileName_example_ready)
qed



text \<open>
  C9, as stated, fails in a run of 21474837 files. After \<open>Start\<close>, with every job
  still queued and none in flight, the value \<open>UpdateProgress\<close> sets is 0 and exceeds the
  bar's maximum. And when all the jobs have finished, 100 per finished job is 2147483700,
  which is not the value set.
\<close>

theorem UpdateProgress_bounds_counterexample:
  "queued (Start example_env example_many) = 21474837 \<and>
   progress_bar_value (UpdateProgress example_env [] (Start example_env example_many)) = 0 \<and>
   progress_bar_maximum (UpdateProgress example_env [] (Start example_env example_many)) =
     - 2147483596 \<and>
   finished_success
     (JobCompletes example_env (replicate 21474837 example_done_two)
        (Start example_env example_many)) +
   finished_failed
     (JobCompletes example_env (replicate 21474837 example_done_two)
        (Start example_env example_many)) = 21474837 \<and>
   progress_bar_value
     (UpdateProgress example_env []
        (JobCompletes example_env (replicate 21474837 example_done_two)
           (Start example_env example_many))) = - 2147483596"
proof -
  let ?d = "Start example_env example_many"
  let ?d' = "JobCompletes example_env (replicate 21474837 example_done_two) ?d"
  have c: "queued ?d = 21474837" "finished_success ?d = 0" "finished_failed ?d = 0"
    "progress_bar_maximum ?d = - 2147483596"
    using counters_Start [of example_many example_env] files_example_many
    by (simp_all add: int32_def)
  have k: "finished_success ?d' + finished_failed ?d' = 21474837"
    using JobCompletes_counters [of example_env "replicate 21474837 example_done_two" ?d] c
    by simp
  have v: "progress_bar_value (UpdateProgress example_env [] ?d') = - 2147483596"
    by (simp add: UpdateProgress_def Let_def k int32_def)
  have v0: "progress_bar_value (UpdateProgress example_env [] ?d) = 0"
    by (simp add: UpdateProgress_def Let_def c int32_def)
  have m0: "progress_bar_maximum (UpdateProgress example_env [] ?d) = - 2147483596"
    by (simp add: UpdateProgress_def Let_def c)
  show ?thesis using c k v v0 m0 by simp
qed

text \<open>
  C9 (amended). A job in flight contributes its progress times 100, converted to
  \<open>int\<close> as the platform does and clamped into 0..99. Whenever 100 per finished job plus
  99 per job in flight fits a 32-bit \<open>int\<close>, \<open>UpdateProgress\<close> sets the progress bar
  to 100 per finished job, successful or failed, plus the contributions of the jobs in
  flight. That is so in every run of at most 21474836 files (\<open>Start\<close> on the list
  followed by at most as many \<open>JobComplete\<close> notifications as files); in such a run,
  when the engine reports at most \<open>queued\<close> jobs in flight, the value is at most the
  bar's maximum, and it equals the maximum only when \<open>queued\<close> is 0 and no job is in
  flight.
\<close>

theorem UpdateProgress_bounds:
  "(\<forall>x. qBound 0 x 99 = (if x < 0 then 0 else if 99 < x then 99 else x)) \<and>
   (0 \<le> finished_success d + finished_failed d \<and>
    (finished_success d + finished_failed d) * 100 + 99 * int (length current_jobs)
      \<le> 2147483647 \<longrightarrow>
      progress_bar_value (UpdateProgress e current_jobs d) =
        (finished_success d + finished_failed d) * 100 +
        sum_list (map (\<lambda>v. qBound 0 (int_of_float e (float_mul e v (float_of_int e 100))) 99)
                    (map snd current_jobs))) \<and>
   (files d0 \<noteq> [] \<and> length (files d0) \<le> 21474836 \<and> length ns \<le> length (files d0) \<and>
    d = JobCompletes e ns (Start e d0) \<and> int (length current_jobs) \<le> queued d \<longrightarrow>
      progress_bar_value (UpdateProgress e current_jobs d) =
        (finished_success d + finished_failed d) * 100 +
        sum_list (map (\<lambda>v. qBound 0 (int_of_float e (float_mul e v (float_of_int e 100))) 99)
                    (map snd current_jobs)) \<and>
      progress_bar_value (UpdateProgress e current_jobs d) \<le>
        progress_bar_maximum (UpdateProgress e current_jobs d) \<and>
      (progress_bar_value (UpdateProgress e current_jobs d) =
         progress_bar_maximum (UpdateProgress e current_jobs d) \<longrightarrow>
       queued d = 0 \<and> current_jobs = []))"
proof -
  let ?sum = "sum_list (map (\<lambda>v. qBound 0 (int_of_float e (float_mul e v (float_of_int e 100))) 99)
                    (map snd current_jobs))"
  have sc: "scaled e = (\<lambda>v. qBound 0 (int_of_float e (float_mul e v (float_of_int e 100))) 99)"
    by (rule ext) (simp add: scaled_def)
  have clamp: "\<forall>x. qBound 0 x 99 = (if x < 0 then 0 else if 99 < x then 99 else x)"
    by (simp add: qBound_def)
  have val: "progress_bar_value (UpdateProgress e current_jobs d) =
        (finished_success d + finished_failed d) * 100 + ?sum"
    if "0 \<le> finished_success d + finished_failed d"
      "(finished_success d + finished_failed d) * 100 + 99 * int (length current_jobs)
         \<le> 2147483647"
    using UpdateProgress_value [OF that, of e] by (simp add: sc)
  have run: "progress_bar_value (UpdateProgress e current_jobs d) =
        (finished_success d + finished_failed d) * 100 + ?sum \<and>
      progress_bar_value (UpdateProgress e current_jobs d) \<le>
        progress_bar_maximum (UpdateProgress e current_jobs d) \<and>
      (progress_bar_value (UpdateProgress e current_jobs d) =
         progress_bar_maximum (UpdateProgress e current_jobs d) \<longrightarrow>
       queued d = 0 \<and> current_jobs = [])"
    if h: "files d0 \<noteq> []" "length (files d0) \<le> 21474836" "length ns \<le> length (files d0)"
      "d = JobCompletes e ns (Start e d0)" "int (length current_jobs) \<le> queued d"
  proof -
    let ?n = "int (length (files d0))"
    have n: "?n \<le> 21474836" using h(2) by simp
    have n100: "int32 (?n * 100) = ?n * 100"
      using n by (intro int32_id) simp_all
    have q: "queued d = ?n - int (length ns)"
      and sum: "finished_success d + finished_failed d = int (length ns)"
      and mx: "progress_bar_maximum d = ?n * 100"
      using counters_Start [OF h(1), of e] JobCompletes_counters [of e ns "Start e d0"] h(4) n100
      by simp_all
    have fit: "(finished_success d + finished_failed d) * 100 + 99 * int (length current_jobs)
         \<le> 2147483647"
      using sum q h(5) n by simp
    have v: "progress_bar_value (UpdateProgress e current_jobs d) = int (length ns) * 100 + ?sum"
      using val [OF _ fit] sum by simp
    have s: "?sum \<le> 99 * int (length current_jobs)"
      using sum_scaled_le [of e "map snd current_jobs"] by (simp add: sc)
    have mx': "progress_bar_maximum (UpdateProgress e current_jobs d) = ?n * 100"
      by (subst UpdateProgress_frame) (simp add: mx)
    have le: "progress_bar_value (UpdateProgress e current_jobs d) \<le> ?n * 100"
      using v q s h(5) by simp
    have eq: "queued d = 0 \<and> current_jobs = []"
      if "progress_bar_value (UpdateProgress e current_jobs d) = ?n * 100"
    proof -
      have "queued d = 0" using that v q s h(5) by simp
      then show ?thesis using h(5) by simp
    qed
    show ?thesis using v sum le eq mx' by simp
  qed
  show ?thesis using clamp val run by blast
qed

theorem UpdateProgress_bounds_witness:
  "files example_ready \<noteq> [] \<and>
   length (files example_ready) \<le> 21474836 \<and>
   length [example_done_one] \<le> length (files example_ready) \<and>
   int (length [(fromLocalFile ''/tmp/two.tar.wav'', 1 / 2 :: real)]) \<le>
     queued (JobCompletes example_env [example_done_one] (Start example_env example_ready)) \<and>
   progress_bar_value
     (UpdateProgress example_env [(fromLocalFile ''/tmp/two.tar.wav'', 1 / 2)]
        (JobCompletes example_env [example_done_one] (Start example_env example_ready))) = 150 \<and>
   progress_bar_value
     (UpdateProgress example_env [(fromLocalFile ''/tmp/two.tar.wav'', 1 / 2)]
        (JobCompletes example_env [example_done_one] (Start example_env example_ready))) \<le>
   progress_bar_maximum
     (UpdateProgress example_env [(fromLocalFile ''/tmp/two.tar.wav'', 1 / 2)]
        (JobCompletes example_env [example_done_one] (Start example_env example_ready)))"
proof -
  let ?d = "JobCompletes example_env [example_done_one] (Start example_env example_ready)"
  let ?jobs = "[(fromLocalFile ''/tmp/two.tar.wav'', 1 / 2 :: real)]"
  have h1: "files example_ready \<noteq> []"
    using files_example_ready by simp
  have h1': "length (files example_ready) \<le> 21474836"
    using files_example_ready by simp
  have h2: "length [example_done_one] \<le> length (files example_ready)"
    using files_example_ready by simp
  have h4: "int (length ?jobs) \<le> queued ?d"
    using JobCompletes_example by simp
  have sc: "qBound 0 (int_of_float example_env (float_mul example_env (1 / 2)
              (float_of_int example_env 100))) 99 = 50"
    using example_scaled by (simp add: scaled_def)
  note t = UpdateProgress_bounds [of ?d ?jobs example_env example_ready "[example_done_one]"]
  from t h1 h1' h2 h4 have r:
    "progress_bar_value (UpdateProgress example_env ?jobs ?d) =
        (finished_success ?d + finished_failed ?d) * 100 +
        sum_list (map (\<lambda>v. qBound 0 (int_of_float example_env (float_mul example_env v
                                (float_of_int example_env 100))) 99) (map snd ?jobs))"
    "progress_bar_value (UpdateProgress example_env ?jobs ?d) \<le>
       progress_bar_maximum (UpdateProgress example_env ?jobs ?d)"
    by blast+
  have v: "progress_bar_value (UpdateProgress example_env ?jobs ?d) = 150"
    using r(1) JobCompletes_example by (simp add: sc)
  show ?thesis using h1 h1' h2 h4 v r(2) by blast
qed

text \<open>
  A path is a directory, then the last \<open>/\<close>, then a file name without \<open>/\<close>; a file
  name is a base, then its last dot, then an end without dot, or has no dot at all.
\<close>

lemma takeWhile_until: "c \<notin> set xs \<Longrightarrow> takeWhile (\<lambda>x. x \<noteq> c) (xs @ c # ys) = xs"
  by (induction xs) auto

lemma takeWhile_whole: "c \<notin> set xs \<Longrightarrow> takeWhile (\<lambda>x. x \<noteq> c) xs = xs"
  by (induction xs) auto

lemma dropWhile_until: "c \<notin> set xs \<Longrightarrow> dropWhile (\<lambda>x. x \<noteq> c) (xs @ c # ys) = c # ys"
  by (induction xs) auto

lemma fileName_append: "CHR ''/'' \<notin> set f \<Longrightarrow> fileName (dir @ ''/'' @ f) = f"
  by (simp add: fileName_def takeWhile_until)

lemma fileName_plain: "CHR ''/'' \<notin> set f \<Longrightarrow> fileName f = f"
  by (simp add: fileName_def takeWhile_whole)

lemma QFileInfo_path_append:
  "CHR ''/'' \<notin> set f \<Longrightarrow> QFileInfo_path (dir @ ''/'' @ f) = (if dir = [] then ''/'' else dir)"
  by (simp add: QFileInfo_path_def dropWhile_until)

lemma QFileInfo_path_plain: "CHR ''/'' \<notin> set f \<Longrightarrow> QFileInfo_path f = ''.''"
  by (simp add: QFileInfo_path_def)

lemma completeBaseName_dot:
  "fileName p = base @ ''.'' @ ext \<Longrightarrow> CHR ''.'' \<notin> set ext \<Longrightarrow> completeBaseName p = base"
  by (simp add: completeBaseName_def dropWhile_until)

lemma completeBaseName_plain:
  "fileName p = n \<Longrightarrow> CHR ''.'' \<notin> set n \<Longrightarrow> completeBaseName p = n"
  by (simp add: completeBaseName_def)

lemma toString_itemData:
  "toString (itemData c i) =
     (if 0 \<le> i \<and> i < int (length (items c))
      then (case snd (items c ! nat i) of VString p \<Rightarrow> p | Invalid \<Rightarrow> [] | VPreset q \<Rightarrow> [])
      else [])"
  by (simp add: toString_def itemData_def count_items_def split: QVariant.splits)

text \<open>
  C10. The output file name is a folder, then \<open>/\<close>, the complete base name of the input
  (its file name up to the last dot, the whole file name when it has no dot), a dot and
  the preset's extension. The folder is the string the current destination item carries
  when that names an existing directory. Otherwise it is the input file's own directory:
  what stands before the last \<open>/\<close> of the input, \<open>/\<close> when nothing stands before it,
  \<open>.\<close> when the input has no \<open>/\<close>.
\<close>

theorem GetOutputFileName_folder:
  assumes "CHR ''/'' \<notin> set base" and "CHR ''/'' \<notin> set ext" and "CHR ''.'' \<notin> set ext"
  shows "let chosen =
               (let c = destination d; i = currentIndex c
                in if 0 \<le> i \<and> i < int (length (items c))
                   then (case snd (items c ! nat i) of
                           VString p \<Rightarrow> p | Invalid \<Rightarrow> [] | VPreset q \<Rightarrow> [])
                   else []);
             folder = (\<lambda>own. if isDir e chosen then chosen else own);
             above = (if dir = [] then ''/'' else dir)
         in GetOutputFileName e d (dir @ ''/'' @ base @ ''.'' @ ext) preset =
              folder above @ ''/'' @ base @ ''.'' @ extension preset \<and>
            GetOutputFileName e d (base @ ''.'' @ ext) preset =
              folder ''.'' @ ''/'' @ base @ ''.'' @ extension preset \<and>
            GetOutputFileName e d (dir @ ''/'' @ ext) preset =
              folder above @ ''/'' @ ext @ ''.'' @ extension preset \<and>
            GetOutputFileName e d ext preset =
              folder ''.'' @ ''/'' @ ext @ ''.'' @ extension preset"
proof -
  have s1: "CHR ''/'' \<notin> set (base @ ''.'' @ ext)"
    using assms by simp
  have f1: "fileName (dir @ ''/'' @ base @ ''.'' @ ext) = base @ ''.'' @ ext"
    using fileName_append [OF s1, of dir] by simp
  have f2: "fileName (base @ ''.'' @ ext) = base @ ''.'' @ ext"
    using fileName_plain [OF s1] .
  have f3: "fileName (dir @ ''/'' @ ext) = ext"
    using fileName_append [OF assms(2), of dir] .
  have f4: "fileName ext = ext"
    using fileName_plain [OF assms(2)] .
  have p1: "QFileInfo_path (dir @ ''/'' @ base @ ''.'' @ ext) = (if dir = [] then ''/'' else dir)"
    using QFileInfo_path_append [OF s1, of dir] by simp
  have p2: "QFileInfo_path (base @ ''.'' @ ext) = ''.''"
    using QFileInfo_path_plain [OF s1] .
  have p3: "QFileInfo_path (dir @ ''/'' @ ext) = (if dir = [] then ''/'' else dir)"
    using QFileInfo_path_append [OF assms(2), of dir] .
  have p4: "QFileInfo_path ext = ''.''"
    using QFileInfo_path_plain [OF assms(2)] .
  note c = completeBaseName_dot [OF f1 assms(3)] completeBaseName_dot [OF f2 assms(3)]
    completeBaseName_plain [OF f3 assms(3)] completeBaseName_plain [OF f4 assms(3)]
  show ?thesis
    unfolding Let_def GetOutputFileName_def filePath_def toString_itemData c p1 p2 p3 p4
    by simp
qed

theorem GetOutputFileName_folder_witness:
  "CHR ''/'' \<notin> set ''two.tar'' \<and> CHR ''/'' \<notin> set ''wav'' \<and> CHR ''.'' \<notin> set ''wav'' \<and>
   GetOutputFileName example_env example_ready ''/tmp/two.tar.wav'' example_ogg =
     ''/music/two.tar.ogg'' \<and>
   GetOutputFileName example_env example_dialog ''/tmp/two.tar.wav'' example_ogg =
     ''/tmp/two.tar.ogg'' \<and>
   GetOutputFileName example_env example_dialog ''two.tar.wav'' example_ogg =
     ''./two.tar.ogg'' \<and>
   GetOutputFileName example_env example_dialog ''/tmp/wav'' example_ogg = ''/tmp/wav.ogg''"
proof -
  have h: "CHR ''/'' \<notin> set ''two.tar''" "CHR ''/'' \<notin> set ''wav''" "CHR ''.'' \<notin> set ''wav''"
    by simp_all
  have x: "extension example_ogg = ''ogg''"
    by (simp add: example_ogg_def)
  note a = GetOutputFileName_folder [OF h, of example_ready example_env "''/tmp''" example_ogg,
      unfolded Let_def]
  note b = GetOutputFileName_folder [OF h, of example_dialog example_env "''/tmp''" example_ogg,
      unfolded Let_def]
  have a1: "GetOutputFileName example_env example_ready ''/tmp/two.tar.wav'' example_ogg =
     ''/music/two.tar.ogg''"
    using a by (simp add: example_ready_def example_env_def x)
  have b1: "GetOutputFileName example_env example_dialog ''/tmp/two.tar.wav'' example_ogg =
     ''/tmp/two.tar.ogg'' \<and>
   GetOutputFileName example_env example_dialog ''two.tar.wav'' example_ogg =
     ''./two.tar.ogg'' \<and>
   GetOutputFileName example_env example_dialog ''/tmp/wav'' example_ogg = ''/tmp/wav.ogg''"
    using b by (simp add: example_dialog_def example_env_def x)
  show ?thesis using h a1 b1 by blast
qed

text \<open>
  The same by evaluation: a file in the root directory and a file name without directory.
\<close>

lemma GetOutputFileName_examples:
  "GetOutputFileName example_env example_dialog ''/song.mp3'' example_flac = ''//song.flac'' \<and>
   GetOutputFileName example_env example_dialog ''song'' example_flac = ''./song.flac''"
  by (simp add: GetOutputFileName_def Let_def filePath_def example_env_def
        example_dialog_def example_flac_def itemData_def count_items_def
        toString_def QFileInfo_path_def completeBaseName_def fileName_def)

section \<open>Settings and progress updates\<close>

lemma SetFilenames_frame:
  "settings (SetFilenames filenames d) = settings d \<and>
   progress_bar_value (SetFilenames filenames d) = progress_bar_value d \<and>
   last_add_dir (SetFilenames filenames d) = last_add_dir d"
  by (induction filenames arbitrary: d) (simp_all add: Let_def)


lemma settings_Start:
  "settings (Start e d) =
     (if files d = [] then settings d
      else (settings d)((kSettingsGroup, ''last_output_format'') \<mapsto>
                          codec_mimetype (current_preset d)))"
  by (simp add: Start_def Let_def Start_loop_eq SetWorking_def UpdateStatusText_eq
        current_preset_def)

text \<open>
  C6 (amended). \<open>Add\<close> with a non-empty selection stores the first selected file name,
  which it also keeps as \<open>last_add_dir\<close>, under the key \<open>last_add_dir\<close> of the group
  \<open>Transcoder\<close>; a cancelled \<open>Add\<close> writes nothing. \<open>Import\<close> with a chosen
  directory stores that directory under \<open>last_import_dir\<close>; a cancelled \<open>Import\<close>
  writes nothing. \<open>Start\<close> on a non-empty file list stores the codec mimetype of the
  selected preset under \<open>last_output_format\<close>; \<open>Start\<close> on an empty list writes
  nothing. Each write is part of the slot's own effect.
\<close>

theorem settings_written:
  "settings (Add filenames d) =
     (if filenames = [] then settings d
      else (settings d)((kSettingsGroup, ''last_add_dir'') \<mapsto> filenames ! 0)) \<and>
   last_add_dir (Add filenames d) = (if filenames = [] then last_add_dir d else filenames ! 0) \<and>
   settings (Import path found d) =
     (if path = [] then settings d
      else (settings d)((kSettingsGroup, ''last_import_dir'') \<mapsto> path)) \<and>
   last_import_dir (Import path found d) = (if path = [] then last_import_dir d else path) \<and>
   settings (Start e d) =
     (if files d = [] then settings d
      else (settings d)((kSettingsGroup, ''last_output_format'') \<mapsto>
                          codec_mimetype (current_preset d)))"
  by (simp add: Add_def Import_def Let_def SetFilenames_frame settings_Start)

text \<open>
  C6, as stated, fails: with an empty file list and the Ogg Vorbis preset selected,
  \<open>Start\<close> leaves \<open>last_output_format\<close> unset. And what \<open>Add\<close> stores under
  \<open>last_add_dir\<close> is the first selected file, not the directory it lies in.
\<close>

theorem settings_written_counterexample:
  "files (example_ready\<lparr>files := []\<rparr>) = [] \<and>
   codec_mimetype (current_preset (example_ready\<lparr>files := []\<rparr>)) = ''audio/x-vorbis'' \<and>
   settings (example_ready\<lparr>files := []\<rparr>) (kSettingsGroup, ''last_output_format'') = None \<and>
   settings (Start example_env (example_ready\<lparr>files := []\<rparr>))
     (kSettingsGroup, ''last_output_format'') = None \<and>
   settings (Add [''/home/user/one.mp3''] example_dialog) (kSettingsGroup, ''last_add_dir'') =
     Some ''/home/user/one.mp3'' \<and>
   QFileInfo_path ''/home/user/one.mp3'' = ''/home/user''"
  by (simp add: Start_def Add_def Let_def SetFilenames_frame current_preset_def example_ready_def
        example_dialog_def example_ogg_def itemData_def count_items_def value_TranscoderPreset_def
        QFileInfo_path_def)




section \<open>Construction\<close>

declare TranscodeDialog_format_loop.simps [simp del]

lemma TranscodeDialog_presets_loop_eq:
  "TranscodeDialog_presets_loop ps c =
     \<lparr>items = items c @ map item_of_preset ps,
      currentIndex = (if items c = [] \<and> ps \<noteq> [] then 0 else currentIndex c)\<rparr>"
proof (induction ps arbitrary: c)
  case Nil
  show ?case by simp
next
  case (Cons p ps)
  show ?case
    by (simp add: Cons.IH addItem_def item_of_preset_def)
qed

lemma TranscodeDialog_format_loop_eq:
  "0 \<le> i \<Longrightarrow>
   TranscodeDialog_format_loop fmt i c =
     (let k = length (takeWhile (\<lambda>it. codec_mimetype (value_TranscoderPreset (snd it)) \<noteq> fmt)
                        (drop (nat i) (items c)))
      in if nat i + k < length (items c) then setCurrentIndex (i + int k) c else c)"
proof (induction fmt i c rule: TranscodeDialog_format_loop.induct)
  case (1 fmt i c)
  show ?case
  proof (cases "i < count_items c")
    case False
    then have "drop (nat i) (items c) = []"
      using "1.prems" by (simp add: count_items_def)
    then show ?thesis
      using False "1.prems" by (simp add: TranscodeDialog_format_loop.simps count_items_def)
  next
    case True
    then have lt: "nat i < length (items c)"
      using "1.prems" by (simp add: count_items_def)
    have dr: "drop (nat i) (items c) = items c ! nat i # drop (Suc (nat i)) (items c)"
      using lt by (simp add: Cons_nth_drop_Suc)
    have dat: "itemData c i = snd (items c ! nat i)"
      using True "1.prems" by (simp add: itemData_def)
    show ?thesis
    proof (cases "fmt = codec_mimetype (value_TranscoderPreset (itemData c i))")
      case T: True
      then show ?thesis
        using True lt dr dat by (simp add: TranscodeDialog_format_loop.simps)
    next
      case F: False
      have s: "nat (i + 1) = Suc (nat i)" using "1.prems" by simp
      have "TranscodeDialog_format_loop fmt i c = TranscodeDialog_format_loop fmt (i + 1) c"
        using True F by (subst TranscodeDialog_format_loop.simps) simp
      also have "\<dots> =
        (let k = length (takeWhile (\<lambda>it. codec_mimetype (value_TranscoderPreset (snd it)) \<noteq> fmt)
                        (drop (nat (i + 1)) (items c)))
         in if nat (i + 1) + k < length (items c) then setCurrentIndex (i + 1 + int k) c else c)"
        using "1.IH" [OF True F] "1.prems" by simp
      finally show ?thesis
        using F dr dat s by (simp add: Let_def add.assoc)
    qed
  qed
qed

lemma takeWhile_first:
  "(length (takeWhile P xs) < length xs \<longrightarrow> \<not> P (xs ! length (takeWhile P xs))) \<and>
   (\<forall>j < length (takeWhile P xs). P (xs ! j))"
  by (metis nth_length_takeWhile nth_mem set_takeWhileD takeWhile_nth)

lemma sorted_wrt_ComparePresetsByName:
  "sorted_wrt (\<lambda>a b. \<not> ComparePresetsByName b a) ps \<longleftrightarrow> sorted (map name ps)"
  by (simp add: ComparePresetsByName_def sorted_map not_less)

lemma format_TranscodeDialog:
  assumes "items (format ui) = []"
  shows "format (TranscodeDialog e std_sort all_presets ui) =
     (let ps = std_sort ComparePresetsByName all_presets;
          fmt = QSettings_value (settings ui) ''last_output_format'' ''audio/x-vorbis'';
          k = length (takeWhile (\<lambda>p. codec_mimetype p \<noteq> fmt) ps)
      in \<lparr>items = map item_of_preset ps,
          currentIndex = (if k < length ps then int k
                          else if ps = [] then currentIndex (format ui) else 0)\<rparr>)"
proof -
  let ?ps = "std_sort ComparePresetsByName all_presets"
  let ?fmt = "QSettings_value (settings ui) ''last_output_format'' ''audio/x-vorbis''"
  let ?c = "\<lparr>items = map item_of_preset ?ps,
            currentIndex = (if ?ps \<noteq> [] then 0 else currentIndex (format ui))\<rparr>"
  have tw: "takeWhile (\<lambda>it. codec_mimetype (value_TranscoderPreset (snd it)) \<noteq> ?fmt)
              (map item_of_preset ?ps) =
            map item_of_preset (takeWhile (\<lambda>p. codec_mimetype p \<noteq> ?fmt) ?ps)"
    by (simp add: takeWhile_map comp_def item_of_preset_def value_TranscoderPreset_def)
  have loop: "TranscodeDialog_format_loop ?fmt 0 ?c =
     (let k = length (takeWhile (\<lambda>p. codec_mimetype p \<noteq> ?fmt) ?ps)
      in if k < length ?ps then setCurrentIndex (int k) ?c else ?c)"
    using TranscodeDialog_format_loop_eq [of 0 ?fmt ?c] by (simp add: tw Let_def)
  have "format (TranscodeDialog e std_sort all_presets ui) = TranscodeDialog_format_loop ?fmt 0 ?c"
    using assms by (simp add: TranscodeDialog_def Let_def TranscodeDialog_presets_loop_eq)
  then show ?thesis
    by (auto simp: loop Let_def setCurrentIndex_def count_items_def)
qed

lemma mset_insert_by: "mset (insert_by cmp x ys) = add_mset x (mset ys)"
  by (induction ys) simp_all

lemma mset_example_sort: "mset (example_sort cmp xs) = mset xs"
  by (induction xs) (simp_all add: example_sort_def mset_insert_by)

lemma set_insert_by: "set (insert_by cmp x ys) = insert x (set ys)"
  by (induction ys) auto

lemma sorted_insert_by:
  "sorted (map name ys) \<Longrightarrow> sorted (map name (insert_by ComparePresetsByName x ys))"
  by (induction ys) (auto simp: set_insert_by ComparePresetsByName_def)

lemma sorted_example_sort: "sorted (map name (example_sort ComparePresetsByName xs))"
  by (induction xs) (simp_all add: example_sort_def sorted_insert_by)

text \<open>
  C7. Let \<open>std::sort\<close> return a permutation of the presets that is sorted by the
  comparison \<open>ComparePresetsByName\<close>, and let the format box be empty before. After
  construction the box holds one item per preset, in that order, which is sorted by name,
  each labelled \<open>name (.extension)\<close> and carrying its preset. The current index is the
  position of the first preset whose codec mimetype equals the stored
  \<open>last_output_format\<close> (\<open>audio/x-vorbis\<close> when none is stored); when no preset
  matches it is 0, the first item.
\<close>

theorem TranscodeDialog_format_box:
  assumes "mset (std_sort ComparePresetsByName all_presets) = mset all_presets"
    and "sorted_wrt (\<lambda>a b. \<not> ComparePresetsByName b a) (std_sort ComparePresetsByName all_presets)"
    and "items (format ui) = []"
  shows "let ps = std_sort ComparePresetsByName all_presets;
             fmt = (case settings ui (kSettingsGroup, ''last_output_format'') of
                      None \<Rightarrow> ''audio/x-vorbis'' | Some v \<Rightarrow> v);
             k = length (takeWhile (\<lambda>p. codec_mimetype p \<noteq> fmt) ps);
             box = format (TranscodeDialog e std_sort all_presets ui)
         in items box = map (\<lambda>p. (name p @ '' (.'' @ extension p @ '')'', VPreset p)) ps \<and>
            mset ps = mset all_presets \<and>
            sorted (map name ps) \<and>
            currentIndex box =
              (if k < length ps then int k
               else if ps = [] then currentIndex (format ui) else 0) \<and>
            (k < length ps \<longrightarrow> codec_mimetype (ps ! k) = fmt) \<and>
            (\<forall>j<k. codec_mimetype (ps ! j) \<noteq> fmt)"
proof -
  let ?ps = "std_sort ComparePresetsByName all_presets"
  let ?fmt = "QSettings_value (settings ui) ''last_output_format'' ''audio/x-vorbis''"
  let ?k = "length (takeWhile (\<lambda>p. codec_mimetype p \<noteq> ?fmt) ?ps)"
  have box: "format (TranscodeDialog e std_sort all_presets ui) =
      \<lparr>items = map item_of_preset ?ps,
       currentIndex = (if ?k < length ?ps then int ?k
                       else if ?ps = [] then currentIndex (format ui) else 0)\<rparr>"
    using format_TranscodeDialog [OF assms(3), of e std_sort all_presets] by (simp add: Let_def)
  have srt: "sorted (map name ?ps)"
    using assms(2) by (simp add: sorted_wrt_ComparePresetsByName)
  have first: "(?k < length ?ps \<longrightarrow> codec_mimetype (?ps ! ?k) = ?fmt) \<and>
               (\<forall>j < ?k. codec_mimetype (?ps ! j) \<noteq> ?fmt)"
    using takeWhile_first [of "\<lambda>p. codec_mimetype p \<noteq> ?fmt" ?ps] by simp
  have it: "item_of_preset = (\<lambda>p. (name p @ '' (.'' @ extension p @ '')'', VPreset p))"
    by (rule ext) (simp add: item_of_preset_def)
  have fm: "?fmt = (case settings ui (kSettingsGroup, ''last_output_format'') of
                      None \<Rightarrow> ''audio/x-vorbis'' | Some v \<Rightarrow> v)"
    by (simp add: QSettings_value_def)
  show ?thesis
    unfolding Let_def fm [symmetric]
    using box srt first assms(1) by (simp add: it)
qed

theorem TranscodeDialog_format_box_witness:
  "mset (example_sort ComparePresetsByName [example_ogg, example_flac, example_mp3]) =
     mset [example_ogg, example_flac, example_mp3] \<and>
   sorted_wrt (\<lambda>a b. \<not> ComparePresetsByName b a)
     (example_sort ComparePresetsByName [example_ogg, example_flac, example_mp3]) \<and>
   items (format example_dialog) = [] \<and>
   example_sort ComparePresetsByName [example_ogg, example_flac, example_mp3] =
     [example_flac, example_mp3, example_ogg] \<and>
   format (TranscodeDialog example_env example_sort [example_ogg, example_flac, example_mp3]
             example_dialog) =
     \<lparr>items = [(''Flac (.flac)'', VPreset example_flac), (''MP3 (.mp3)'', VPreset example_mp3),
               (''Ogg Vorbis (.ogg)'', VPreset example_ogg)],
      currentIndex = 2\<rparr>"
proof -
  let ?all = "[example_ogg, example_flac, example_mp3]"
  have h1: "mset (example_sort ComparePresetsByName ?all) = mset ?all"
    by (rule mset_example_sort)
  have h2: "sorted_wrt (\<lambda>a b. \<not> ComparePresetsByName b a) (example_sort ComparePresetsByName ?all)"
    by (simp only: sorted_wrt_ComparePresetsByName sorted_example_sort)
  have h3: "items (format example_dialog) = []"
    by (simp add: example_dialog_def)
  have ps: "example_sort ComparePresetsByName ?all = [example_flac, example_mp3, example_ogg]"
    by (simp add: example_sort_def ComparePresetsByName_def example_ogg_def example_flac_def
          example_mp3_def)
  have st: "settings example_dialog (kSettingsGroup, ''last_output_format'') = None"
    by (simp add: example_dialog_def)
  note t = TranscodeDialog_format_box [of example_sort ?all example_dialog example_env, OF h1 h2 h3,
      unfolded Let_def ps st]
  have fields:
    "name example_flac = ''Flac''" "extension example_flac = ''flac''"
    "codec_mimetype example_flac = ''audio/x-flac''"
    "name example_mp3 = ''MP3''" "extension example_mp3 = ''mp3''"
    "codec_mimetype example_mp3 = ''audio/mpeg''"
    "name example_ogg = ''Ogg Vorbis''" "extension example_ogg = ''ogg''"
    "codec_mimetype example_ogg = ''audio/x-vorbis''"
    by (simp_all add: example_ogg_def example_flac_def example_mp3_def)
  have its: "items (format (TranscodeDialog example_env example_sort ?all example_dialog)) =
      [(''Flac (.flac)'', VPreset example_flac), (''MP3 (.mp3)'', VPreset example_mp3),
       (''Ogg Vorbis (.ogg)'', VPreset example_ogg)]"
    using t by (simp add: fields)
  have cur: "currentIndex (format (TranscodeDialog example_env example_sort ?all example_dialog)) = 2"
    using t by (simp add: fields)
  have "format (TranscodeDialog example_env example_sort ?all example_dialog) =
     \<lparr>items = [(''Flac (.flac)'', VPreset example_flac), (''MP3 (.mp3)'', VPreset example_mp3),
               (''Ogg Vorbis (.ogg)'', VPreset example_ogg)],
      currentIndex = 2\<rparr>"
    using its cur by (cases "format (TranscodeDialog example_env example_sort ?all example_dialog)") simp
  then show ?thesis using h1 h2 h3 ps by blast
qed

end
